theory Spec2Isabelle
  imports Complex_Main
begin

section \<open>Go strings\<close>

text \<open>
  Go strings are byte sequences; they are modelled as \<open>string\<close> (a list of
  \<open>char\<close>, each one byte). The helpers below follow the Go standard library
  functions the repository calls: \<open>strings.HasPrefix\<close>, \<open>strings.TrimPrefix\<close>,
  \<open>strings.Cut\<close>, the built-in comparison \<open><\<close> on strings (bytewise
  lexicographic) and \<open>strconv.Atoi\<close> (on a 64-bit platform).
\<close>

definition strings_HasPrefix :: "string \<Rightarrow> string \<Rightarrow> bool" where
  "strings_HasPrefix s p = (length p \<le> length s \<and> take (length p) s = p)"

definition strings_TrimPrefix :: "string \<Rightarrow> string \<Rightarrow> string" where
  "strings_TrimPrefix s p = (if strings_HasPrefix s p then drop (length p) s else s)"

text \<open>
  \<open>strings.Cut(s, sep)\<close> slices \<open>s\<close> around the first instance of \<open>sep\<close>:
  it returns \<open>(before, after, true)\<close>, or \<open>(s, "", false)\<close> when \<open>sep\<close> does
  not occur.
\<close>

fun strings_Cut :: "string \<Rightarrow> string \<Rightarrow> string \<times> string \<times> bool" where
  "strings_Cut [] sep = (if sep = [] then ([], [], True) else ([], [], False))"
| "strings_Cut (c # cs) sep =
     (if strings_HasPrefix (c # cs) sep then ([], drop (length sep) (c # cs), True)
      else (case strings_Cut cs sep of
              (before, after, found) \<Rightarrow>
                if found then (c # before, after, True) else (c # cs, [], False)))"

fun string_less :: "string \<Rightarrow> string \<Rightarrow> bool" where
  "string_less [] [] = False"
| "string_less [] (y # ys) = True"
| "string_less (x # xs) [] = False"
| "string_less (x # xs) (y # ys) =
     (if (of_char x :: nat) < of_char y then True
      else if (of_char y :: nat) < of_char x then False
      else string_less xs ys)"

definition is_digit :: "char \<Rightarrow> bool" where
  "is_digit c = (48 \<le> (of_char c :: nat) \<and> (of_char c :: nat) \<le> 57)"

fun parse_digits :: "string \<Rightarrow> int \<Rightarrow> int option" where
  "parse_digits [] n = Some n"
| "parse_digits (c # cs) n =
     (if is_digit c then parse_digits cs (n * 10 + (of_char c - 48)) else None)"

text \<open>
  \<open>strconv.Atoi\<close>: an optional sign, then one or more decimal digits, and the value
  must fit a signed 64-bit \<open>int\<close>; every other input is an error (\<open>None\<close>).
\<close>

definition strconv_Atoi :: "string \<Rightarrow> int option" where
  "strconv_Atoi s =
     (case s of
        [] \<Rightarrow> None
      | c # cs \<Rightarrow>
          (let body = (if c = CHR ''-'' \<or> c = CHR ''+'' then cs else s) in
           if body = [] then None
           else (case parse_digits body 0 of
                   None \<Rightarrow> None
                 | Some n \<Rightarrow>
                     if c = CHR ''-''
                     then (if n > 9223372036854775808 then None else Some (- n))
                     else (if n \<ge> 9223372036854775808 then None else Some n))))"

section \<open>Resource-version ordering (pkg/runtime/cached.go)\<close>

text \<open>
  \<^verbatim>\<open>
  func newer(oldRV, newRV string) bool {
      if len(oldRV) == len(newRV) { return oldRV < newRV }
      oldI, err := strconv.Atoi(oldRV)
      if err != nil { return true }
      newI, err := strconv.Atoi(newRV)
      if err != nil { return false }
      return oldI < newI
  }
  \<close>
\<close>

definition newer :: "string \<Rightarrow> string \<Rightarrow> bool" where
  "newer oldRV newRV =
     (if length oldRV = length newRV then string_less oldRV newRV
      else (case strconv_Atoi oldRV of
              None \<Rightarrow> True
            | Some oldI \<Rightarrow>
                (case strconv_Atoi newRV of
                   None \<Rightarrow> False
                 | Some newI \<Rightarrow> oldI < newI)))"

section \<open>Keys of the per-kind controller (pkg/runtime)\<close>

text \<open>
  \<^verbatim>\<open>
  func KeyParse(key string) (namespace string, name string) {
      special, key, ok := strings.Cut(key, " ")
      if !ok { key = special }
      namespace, name, ok = strings.Cut(key, "/")
      if !ok { name = namespace; namespace = "" }
      return
  }
  func keyFunc(namespace, name string) string {
      if namespace == "" { return name }
      return namespace + "/" + name
  }
  func isSpecialKey(key string) bool {
      return len(key) > 2 && key[0] == '_' && key[2] == ' '
  }
  \<close>
\<close>

definition KeyParse :: "string \<Rightarrow> string \<times> string" where
  "KeyParse key0 =
     (case strings_Cut key0 '' '' of
        (special, rest, ok) \<Rightarrow>
          (let key = (if \<not> ok then special else rest) in
           case strings_Cut key ''/'' of
             (namespace, name, ok2) \<Rightarrow>
               if \<not> ok2 then ('''', namespace) else (namespace, name)))"

definition keyFunc :: "string \<Rightarrow> string \<Rightarrow> string" where
  "keyFunc namespace name = (if namespace = '''' then name else namespace @ ''/'' @ name)"

definition isSpecialKey :: "string \<Rightarrow> bool" where
  "isSpecialKey key = (length key > 2 \<and> key ! 0 = CHR ''_'' \<and> key ! 2 = CHR '' '')"

section \<open>Errors and objects\<close>

text \<open>
  Go errors as values. \<open>ErrIgnore\<close> is the sentinel of sharedhandler.go;
  \<open>NotFound\<close> is an API status error whose reason is not-found; \<open>Failure\<close> is any
  other leaf error; \<open>Wrapped\<close> is an error with an \<open>Unwrap() error\<close> method (the
  router's \<open>errorPrefix\<close>, or \<open>fmt.Errorf\<close> with \<open>%w\<close>); \<open>Joined\<close> is the
  result of \<open>errors.Join\<close>; \<open>handlerError\<close> and \<open>errorList\<close> are the two
  error types of sharedhandler.go, which have \<open>Cause\<close> but no \<open>Unwrap\<close>.
\<close>

datatype error =
    ErrIgnore
  | NotFound string
  | Failure string
  | Wrapped string error
  | Joined "error list"
  | handlerError string error
  | errorList "error list"

text \<open>\<open>errors.Is(err, ErrIgnore)\<close>: the sentinel itself, or reachable by unwrapping.\<close>

fun errors_Is_ErrIgnore :: "error \<Rightarrow> bool" where
  "errors_Is_ErrIgnore ErrIgnore = True"
| "errors_Is_ErrIgnore (Wrapped p e) = errors_Is_ErrIgnore e"
| "errors_Is_ErrIgnore (Joined es) = list_ex errors_Is_ErrIgnore es"
| "errors_Is_ErrIgnore (NotFound m) = False"
| "errors_Is_ErrIgnore (Failure m) = False"
| "errors_Is_ErrIgnore (handlerError n e) = False"
| "errors_Is_ErrIgnore (errorList es) = False"

text \<open>\<open>apierrors.IsNotFound(err)\<close>: a not-found status error, also through wrapping.\<close>

fun IsNotFound :: "error \<Rightarrow> bool" where
  "IsNotFound (NotFound m) = True"
| "IsNotFound (Wrapped p e) = IsNotFound e"
| "IsNotFound (Joined es) = list_ex IsNotFound es"
| "IsNotFound ErrIgnore = False"
| "IsNotFound (Failure m) = False"
| "IsNotFound (handlerError n e) = False"
| "IsNotFound (errorList es) = False"

record GroupVersionKind =
  Group :: string
  Version :: string
  Kind :: string

text \<open>
  An object of the store (a \<open>kclient.Object\<close>), read through its accessors; \<open>Content\<close>
  stands for the rest of the object (spec, status, labels).
\<close>

record kobject =
  GetNamespace :: string
  GetName :: string
  GetUID :: string
  GetResourceVersion :: string
  Content :: string

section \<open>The per-kind controller: syncHandler (pkg/runtime)\<close>

text \<open>
  What \<open>syncHandler\<close> does to its collaborators, in program order: a \<open>Get\<close> on the
  informer cache, a call of the handler.
\<close>

datatype sync_event =
    CacheGet string string
  | HandlerOnChange string "kobject option"

text \<open>
  \<^verbatim>\<open>
  func (c *controller) syncHandler(ctx context.Context, key string) error {
      if isSpecialKey(key) { return c.handler.OnChange(ctx, key, nil) }
      ns, name := KeyParse(key)
      obj := c.obj.DeepCopyObject().(kclient.Object)
      err := c.cache.Get(ctx, kclient.ObjectKey{Name: name, Namespace: ns}, obj)
      if apierror.IsNotFound(err) {
          return c.handler.OnChange(ctx, key, nil)
      } else if err != nil {
          return err
      }
      return c.handler.OnChange(ctx, key, obj.(runtime.Object))
  }
  \<close>
  The cache and the handler are parameters: \<open>cache_Get ns name\<close> is \<open>Inl err\<close> or
  \<open>Inr obj\<close> (the object the cache filled in), \<open>handler_OnChange key obj\<close> is the
  error the handler returns. The result is the trace and the returned error.
\<close>

definition syncHandler ::
  "(string \<Rightarrow> string \<Rightarrow> error + kobject) \<Rightarrow> (string \<Rightarrow> kobject option \<Rightarrow> error option)
     \<Rightarrow> string \<Rightarrow> sync_event list \<times> error option" where
  "syncHandler cache_Get handler_OnChange key =
     (if isSpecialKey key then ([HandlerOnChange key None], handler_OnChange key None)
      else (case KeyParse key of
              (ns, name) \<Rightarrow>
                (case cache_Get ns name of
                   Inl err \<Rightarrow>
                     if IsNotFound err
                     then ([CacheGet ns name, HandlerOnChange key None], handler_OnChange key None)
                     else ([CacheGet ns name], Some err)
                 | Inr obj \<Rightarrow>
                     ([CacheGet ns name, HandlerOnChange key (Some obj)],
                      handler_OnChange key (Some obj)))))"

text \<open>
  The shape the specification gives for special keys: \<open>_<c> <rest>\<close> with \<open><c>\<close>
  a single ASCII letter. This definition follows the specification's words, for
  comparison with \<open>isSpecialKey\<close>.
\<close>

definition is_ascii_letter :: "char \<Rightarrow> bool" where
  "is_ascii_letter c =
     ((65 \<le> (of_char c :: nat) \<and> (of_char c :: nat) \<le> 90)
      \<or> (97 \<le> (of_char c :: nat) \<and> (of_char c :: nat) \<le> 122))"

fun spec_special_shape :: "string \<Rightarrow> bool" where
  "spec_special_shape (u # c # sp # rest) =
     (u = CHR ''_'' \<and> is_ascii_letter c \<and> sp = CHR '' '')"
| "spec_special_shape short = False"

section \<open>The shared handler chain (pkg/runtime/sharedhandler.go)\<close>

text \<open>
  A \<open>runtime.Object\<close> as a handler of the chain returns it: the nil interface, a
  non-nil interface holding a nil pointer (\<open>reflect.ValueOf(newObj).IsNil()\<close>), an
  object whose metadata \<open>meta.Accessor\<close> can read, or an object for which
  \<open>meta.Accessor\<close> returns an error.
\<close>

datatype runtime_Object =
    NilObject
  | NilPointer
  | Pointer kobject
  | NoMetadata string

record handlerEntry =
  entry_id :: int
  entry_name :: string
  entry_handler :: "string \<Rightarrow> runtime_Object \<Rightarrow> runtime_Object \<times> error option"

text \<open>
  The body of the loop of \<open>OnChange\<close>, in two parts. The error part:
  \<^verbatim>\<open>
      if err != nil && !errors.Is(err, ErrIgnore) {
          errs = append(errs, &handlerError{HandlerName: handler.name, Err: err})
      }
  \<close>
  and the object part:
  \<^verbatim>\<open>
      if newObj != nil && !reflect.ValueOf(newObj).IsNil() {
          meta, err := meta.Accessor(newObj)
          if err == nil && meta.GetUID() != "" {
              // avoid using an empty object
              obj = newObj
          } else if err != nil {
              // assign if we can't determine metadata
              obj = newObj
          }
      }
  \<close>
\<close>

definition append_handler_error :: "error list \<Rightarrow> string \<Rightarrow> error option \<Rightarrow> error list" where
  "append_handler_error errs hname err =
     (case err of
        None \<Rightarrow> errs
      | Some e \<Rightarrow> if \<not> errors_Is_ErrIgnore e then errs @ [handlerError hname e] else errs)"

fun next_obj :: "runtime_Object \<Rightarrow> runtime_Object \<Rightarrow> runtime_Object" where
  "next_obj obj NilObject = obj"
| "next_obj obj NilPointer = obj"
| "next_obj obj (Pointer m) = (if GetUID m \<noteq> '''' then Pointer m else obj)"
| "next_obj obj (NoMetadata d) = NoMetadata d"

text \<open>
  The loop \<open>for _, handler := range handlers\<close>, with the accumulated error list and
  the current object as loop state. The result also records every invocation: the
  handler's id and the object it was called with.
\<close>

fun OnChange_loop ::
  "handlerEntry list \<Rightarrow> string \<Rightarrow> runtime_Object \<Rightarrow> error list \<Rightarrow> (int \<times> runtime_Object) list
     \<Rightarrow> error list \<times> (int \<times> runtime_Object) list" where
  "OnChange_loop [] key obj errs calls = (errs, calls)"
| "OnChange_loop (h # hs) key obj errs calls =
     (case entry_handler h key obj of
        (newObj, err) \<Rightarrow>
          OnChange_loop hs key (next_obj obj newObj)
            (append_handler_error errs (entry_name h) err)
            (calls @ [(entry_id h, obj)]))"

text \<open>
  \<^verbatim>\<open>
  func (e errorList) ToErr() error {
      switch len(e) {
      case 0: return nil
      case 1: return e[0]
      default: return e
      }
  }
  \<close>
\<close>

fun ToErr :: "error list \<Rightarrow> error option" where
  "ToErr [] = None"
| "ToErr [e] = Some e"
| "ToErr es = Some (errorList es)"

definition SharedHandler_OnChange ::
  "handlerEntry list \<Rightarrow> string \<Rightarrow> runtime_Object \<Rightarrow> error option \<times> (int \<times> runtime_Object) list" where
  "SharedHandler_OnChange handlers key obj =
     (case OnChange_loop handlers key obj [] [] of (errs, calls) \<Rightarrow> (ToErr errs, calls))"

text \<open>
  The error a handler contributes to the result of the chain: nothing when it returned
  no error or an error that matches \<open>ErrIgnore\<close>, else its error tagged with the
  handler's name.
\<close>

definition reported_error :: "handlerEntry \<Rightarrow> error option \<Rightarrow> error list" where
  "reported_error h err =
     (case err of
        None \<Rightarrow> []
      | Some e \<Rightarrow> if errors_Is_ErrIgnore e then [] else [handlerError (entry_name h) e])"

text \<open>
  The returned objects that the loop assigns to \<open>obj\<close>: a non-nil object whose UID is
  not empty, or whose metadata cannot be read.
\<close>

fun accepted :: "runtime_Object \<Rightarrow> bool" where
  "accepted NilObject = False"
| "accepted NilPointer = False"
| "accepted (Pointer m) = (GetUID m \<noteq> '''')"
| "accepted (NoMetadata d) = True"

text \<open>The object each handler of the chain is invoked with, in order.\<close>

fun chain_objs :: "handlerEntry list \<Rightarrow> string \<Rightarrow> runtime_Object \<Rightarrow> runtime_Object list" where
  "chain_objs [] key obj = []"
| "chain_objs (h # hs) key obj =
     obj # chain_objs hs key (next_obj obj (fst (entry_handler h key obj)))"

section \<open>The dispatch engine: HandlerSet (router)\<close>

definition TriggerPrefix :: string where
  "TriggerPrefix = ''_t ''"

definition ReplayPrefix :: string where
  "ReplayPrefix = ''_r ''"

text \<open>
  A \<open>time.Duration\<close> is a signed count of nanoseconds; the code only stores and
  compares durations, so they are integers here.
\<close>

record response =
  delay :: int

text \<open>
  \<^verbatim>\<open>
  func (r *response) RetryAfter(delay time.Duration) {
      if r.delay == 0 || delay < r.delay {
          r.delay = delay
      }
  }
  \<close>
\<close>

definition RetryAfter :: "response \<Rightarrow> int \<Rightarrow> response" where
  "RetryAfter r d = (if delay r = 0 \<or> d < delay r then r\<lparr>delay := d\<rparr> else r)"

record Request =
  FromTrigger :: bool
  GVK :: GroupVersionKind
  Object :: "kobject option"
  Namespace :: string
  Name :: string
  Key :: string

text \<open>
  \<open>limiterKey\<close> is the struct \<open>{key string; gvk schema.GroupVersionKind}\<close>, here the
  pair \<open>(key, gvk)\<close>. A \<open>rate.Limiter\<close> is a token bucket of the library
  \<open>golang.org/x/time/rate\<close>: \<open>Limiter r b\<close> is the bucket made by
  \<open>rate.NewLimiter(r, b)\<close>, refill rate \<open>r\<close> tokens per second and burst \<open>b\<close>.
\<close>

type_synonym limiterKey = "string \<times> GroupVersionKind"

datatype Limiter = Limiter rat nat

definition rate_NewLimiter :: "rat \<Rightarrow> nat \<Rightarrow> Limiter" where
  "rate_NewLimiter r b = Limiter r b"

text \<open>The limiter state of a \<open>HandlerSet\<close>: the two maps under \<open>limiterLock\<close>.\<close>

record HandlerSet =
  limiters :: "limiterKey \<rightharpoonup> Limiter"
  waiting :: "limiterKey set"

text \<open>
  What a dispatch does to its collaborators, in program order. \<open>CheckDelay\<close> and
  \<open>NewRequest\<close> mark the entry of \<open>checkDelay\<close> and the request that
  \<open>newRequestResponse\<close> builds; \<open>GoBackoff gvk key d\<close> is the goroutine that
  \<open>checkDelay\<close> starts, which sleeps for \<open>d\<close>; the others are calls: of the
  limiter, the backend, the scheme, the per-key locker, the handlers, the trigger
  registry and the save routine.
\<close>

datatype event =
    CheckDelay limiterKey
  | Reserve limiterKey
  | GoBackoff GroupVersionKind string int
  | BackendTrigger GroupVersionKind string int
  | SchemeNew GroupVersionKind
  | Lock string
  | Unlock string
  | BackendGet GroupVersionKind string string
  | NewRequest Request
  | Handle Request
  | UnregisterAndTrigger Request
  | Trigger Request
  | Save "kobject option" Request

text \<open>
  The collaborators of a \<open>HandlerSet\<close>, which are not part of the engine, as
  parameters:
  \<^item> \<open>scheme_New gvk\<close>: the error of \<open>m.scheme.New(gvk)\<close>, if any;
  \<^item> \<open>backend_Get gvk ns name\<close>: \<open>m.backend.Get\<close>, an error or the object read;
  \<^item> \<open>backend_Trigger gvk key d\<close>: the error of \<open>m.backend.Trigger\<close>, if any;
  \<^item> \<open>Reserve_Delay l\<close>: what \<open>limit.Reserve().Delay()\<close> returns at this call;
  \<^item> \<open>handlers_Handles req\<close>: whether a handler is registered for the request;
  \<^item> \<open>handlers_Handle req\<close>: the handler chain, which returns its error, the delays
    it passed to \<open>resp.RetryAfter\<close> in order, and what it did to the object that
    \<open>req.Object\<close> points to;
  \<^item> \<open>onError\<close>: the error callback, nil or a function;
  \<^item> \<open>save_save unmodified req\<close>: the save routine, which returns the saved object
    and an error.
\<close>

record Env =
  scheme_New :: "GroupVersionKind \<Rightarrow> error option"
  backend_Get :: "GroupVersionKind \<Rightarrow> string \<Rightarrow> string \<Rightarrow> error + kobject"
  backend_Trigger :: "GroupVersionKind \<Rightarrow> string \<Rightarrow> int \<Rightarrow> error option"
  Reserve_Delay :: "Limiter \<Rightarrow> int"
  handlers_Handles :: "Request \<Rightarrow> bool"
  handlers_Handle :: "Request \<Rightarrow> error option \<times> int list \<times> (kobject \<Rightarrow> kobject)"
  onError :: "(Request \<Rightarrow> response \<Rightarrow> error option \<Rightarrow> error option) option"
  save_save :: "kobject option \<Rightarrow> Request \<Rightarrow> kobject option \<times> error option"

text \<open>
  \<^verbatim>\<open>
  func toObject(obj runtime.Object) kclient.Object {
      if obj == nil { return nil }
      // yep panic if it's not this interface
      return obj.DeepCopyObject().(kclient.Object)
  }
  \<close>
  Every \<open>kobject\<close> is a \<open>kclient.Object\<close>, and a deep copy is an equal value.
\<close>

definition toObject :: "kobject option \<Rightarrow> kobject option" where
  "toObject obj = (case obj of None \<Rightarrow> None | Some ob \<Rightarrow> Some ob)"

text \<open>
  \<open>newRequestResponse\<close> cuts the key at the first slash, builds the request around
  \<open>toObject(runtimeObject)\<close> and a response whose delay is zero; its error result is
  always nil.
\<close>

definition newRequestResponse ::
  "GroupVersionKind \<Rightarrow> string \<Rightarrow> kobject option \<Rightarrow> bool \<Rightarrow> Request \<times> response" where
  "newRequestResponse gvk key runtimeObject trigger =
     (let obj = toObject runtimeObject in
      case strings_Cut key ''/'' of
        (ns, name, ok) \<Rightarrow>
          (\<lparr>FromTrigger = trigger, GVK = gvk, Object = obj,
            Namespace = (if \<not> ok then '''' else ns),
            Name = (if \<not> ok then key else name),
            Key = key\<rparr>,
           \<lparr>delay = 0\<rparr>))"

text \<open>
  \<^verbatim>\<open>
  func (m *HandlerSet) checkDelay(gvk schema.GroupVersionKind, key string) bool {
      m.limiterLock.Lock()
      defer m.limiterLock.Unlock()
      lKey := limiterKey{key: key, gvk: gvk}
      if _, ok := m.waiting[lKey]; ok { return false }
      limit, ok := m.limiters[lKey]
      if !ok {
          limit = rate.NewLimiter(rate.Limit(1.0/5), 10)
          if m.limiters == nil { m.limiters = map[limiterKey]*rate.Limiter{} }
          m.limiters[lKey] = limit
      }
      delay := limit.Reserve().Delay()
      if delay > 0 {
          if m.waiting == nil { m.waiting = map[limiterKey]struct{}{} }
          m.waiting[lKey] = struct{}{}
          go func() {
              time.Sleep(delay)
              m.limiterLock.Lock()
              defer m.limiterLock.Unlock()
              delete(m.waiting, lKey)
              _ = m.backend.Trigger(m.ctx, gvk, ReplayPrefix+key, 0)
          }()
          return false
      }
      return true
  }
  \<close>
  \<open>checkDelay\<close> returns its result, the new limiter state and its trace;
  \<open>backoff\<close> is the body of the goroutine, run when its sleep is over.
\<close>

definition checkDelay ::
  "Env \<Rightarrow> HandlerSet \<Rightarrow> GroupVersionKind \<Rightarrow> string \<Rightarrow> bool \<times> HandlerSet \<times> event list" where
  "checkDelay m hs gvk key =
     (let lKey = (key, gvk) in
      if lKey \<in> waiting hs then (False, hs, [CheckDelay lKey])
      else
        (case (case limiters hs lKey of
                 Some l \<Rightarrow> (l, hs)
               | None \<Rightarrow>
                   (rate_NewLimiter (1 / 5) 10,
                    hs\<lparr>limiters := (limiters hs)(lKey \<mapsto> rate_NewLimiter (1 / 5) 10)\<rparr>)) of
           (limit, hs1) \<Rightarrow>
             (let d = Reserve_Delay m limit in
              if d > 0
              then (False, hs1\<lparr>waiting := insert lKey (waiting hs1)\<rparr>,
                    [CheckDelay lKey, Reserve lKey, GoBackoff gvk key d])
              else (True, hs1, [CheckDelay lKey, Reserve lKey]))))"

definition backoff :: "HandlerSet \<Rightarrow> GroupVersionKind \<Rightarrow> string \<Rightarrow> HandlerSet \<times> event list" where
  "backoff hs gvk key =
     (hs\<lparr>waiting := waiting hs - {(key, gvk)}\<rparr>, [BackendTrigger gvk (ReplayPrefix @ key) 0])"

text \<open>
  \<^verbatim>\<open>
  func (m *HandlerSet) forgetBackoff(gvk schema.GroupVersionKind, key string) {
      m.limiterLock.Lock()
      defer m.limiterLock.Unlock()
      delete(m.limiters, limiterKey{key: key, gvk: gvk})
  }
  func (m *HandlerSet) handleError(req Request, resp Response, err error) error {
      if m.onError != nil { return m.onError(req, resp, err) }
      return err
  }
  \<close>
\<close>

definition forgetBackoff :: "HandlerSet \<Rightarrow> GroupVersionKind \<Rightarrow> string \<Rightarrow> HandlerSet" where
  "forgetBackoff hs gvk key = hs\<lparr>limiters := (limiters hs)((key, gvk) := None)\<rparr>"

definition handleError :: "Env \<Rightarrow> Request \<Rightarrow> response \<Rightarrow> error option \<Rightarrow> error option" where
  "handleError m req resp err = (case onError m of Some f \<Rightarrow> f req resp err | None \<Rightarrow> err)"

text \<open>
  \<^verbatim>\<open>
  func (m *HandlerSet) handle(ctx, gvk, key string, unmodifiedObject runtime.Object,
          trigger bool) (runtime.Object, error) {
      req, resp, err := m.newRequestResponse(ctx, gvk, key, unmodifiedObject, trigger)
      if err != nil { return nil, err }
      handles := m.handlers.Handles(req)
      if handles {
          if err := m.handlers.Handle(req, resp); err != nil {
              if err := m.handleError(req, resp, err); err != nil { return nil, err }
          }
      }
      if unmodifiedObject == nil {
          m.triggers.UnregisterAndTrigger(req)
      } else if !req.FromTrigger {
          m.triggers.Trigger(req)
      }
      if handles {
          newObj, err := m.save.save(unmodifiedObject, req)
          if err != nil {
              if err := m.handleError(req, resp, err); err != nil { return nil, err }
          }
          req.Object = newObj
          if resp.delay > 0 {
              if err := m.backend.Trigger(ctx, gvk, key, resp.delay); err != nil {
                  return nil, err
              }
          }
      }
      return req.Object, m.handleError(req, resp, err)
  }
  \<close>
  The first phase, the handler chain: the trace, the request and the response as the
  chain leaves them, and the error that aborts the dispatch, if any.
\<close>

definition run_handlers ::
  "Env \<Rightarrow> Request \<Rightarrow> response \<Rightarrow> event list \<times> Request \<times> response \<times> error option" where
  "run_handlers m req0 resp0 =
     (case handlers_Handle m req0 of
        (herr, retries, change) \<Rightarrow>
          (let req = req0\<lparr>Object := map_option change (Object req0)\<rparr>;
               resp = foldl RetryAfter resp0 retries
           in ([Handle req0], req, resp,
               (case herr of None \<Rightarrow> None | Some e \<Rightarrow> handleError m req resp (Some e)))))"

text \<open>The second phase: the trigger registry.\<close>

definition update_triggers :: "kobject option \<Rightarrow> Request \<Rightarrow> event list" where
  "update_triggers unmodifiedObject req =
     (if unmodifiedObject = None then [UnregisterAndTrigger req]
      else if \<not> FromTrigger req then [Trigger req]
      else [])"

text \<open>
  The third phase, when handlers ran: save, then the delayed trigger. The last
  \<open>handleError\<close> of \<open>handle\<close> is called with the \<open>err\<close> of
  \<open>newRequestResponse\<close>, which is nil.
\<close>

definition save_and_retry ::
  "Env \<Rightarrow> GroupVersionKind \<Rightarrow> string \<Rightarrow> kobject option \<Rightarrow> Request \<Rightarrow> response
     \<Rightarrow> event list \<times> kobject option \<times> error option" where
  "save_and_retry m gvk key unmodifiedObject req resp =
     (case save_save m unmodifiedObject req of
        (newObj, serr) \<Rightarrow>
          (case (case serr of None \<Rightarrow> None | Some e \<Rightarrow> handleError m req resp (Some e)) of
             Some e \<Rightarrow> ([Save unmodifiedObject req], None, Some e)
           | None \<Rightarrow>
               (let req1 = req\<lparr>Object := newObj\<rparr> in
                if delay resp > 0
                then (case backend_Trigger m gvk key (delay resp) of
                        Some e \<Rightarrow>
                          ([Save unmodifiedObject req, BackendTrigger gvk key (delay resp)],
                           None, Some e)
                      | None \<Rightarrow>
                          ([Save unmodifiedObject req, BackendTrigger gvk key (delay resp)],
                           Object req1, handleError m req1 resp None))
                else ([Save unmodifiedObject req], Object req1, handleError m req1 resp None))))"

definition handle ::
  "Env \<Rightarrow> GroupVersionKind \<Rightarrow> string \<Rightarrow> kobject option \<Rightarrow> bool
     \<Rightarrow> event list \<times> kobject option \<times> error option" where
  "handle m gvk key unmodifiedObject trigger =
     (case newRequestResponse gvk key unmodifiedObject trigger of
        (req0, resp0) \<Rightarrow>
          (let handles = handlers_Handles m req0 in
           case (if handles then run_handlers m req0 resp0 else ([], req0, resp0, None)) of
             (ev1, req, resp, Some err) \<Rightarrow> (NewRequest req0 # ev1, None, Some err)
           | (ev1, req, resp, None) \<Rightarrow>
               (let ev2 = update_triggers unmodifiedObject req in
                if handles
                then (case save_and_retry m gvk key unmodifiedObject req resp of
                        (ev3, obj, err) \<Rightarrow> (NewRequest req0 # ev1 @ ev2 @ ev3, obj, err))
                else (NewRequest req0 # ev1 @ ev2, Object req, handleError m req resp None))))"

text \<open>
  \<^verbatim>\<open>
  func (m *HandlerSet) onChange(ctx, gvk, key string, runtimeObject runtime.Object)
          (runtime.Object, error) {
      fromTrigger := false
      fromReplay := false
      if strings.HasPrefix(key, TriggerPrefix) {
          fromTrigger = true
          key = strings.TrimPrefix(key, TriggerPrefix)
      }
      if strings.HasPrefix(key, ReplayPrefix) {
          fromTrigger = false
          fromReplay = true
          key = strings.TrimPrefix(key, ReplayPrefix)
      }
      if !fromReplay && !fromTrigger {
          if !m.checkDelay(gvk, key) { return runtimeObject, nil }
      }
      obj, err := m.scheme.New(gvk)
      if err != nil { return nil, err }
      ns, name, ok := strings.Cut(key, "/")
      if !ok { name = key; ns = "" }
      lockKey := gvk.Kind + " " + key
      m.locker.Lock(lockKey)
      defer func() { _ = m.locker.Unlock(lockKey) }()
      err = m.backend.Get(ctx, kclient.ObjectKey{Name: name, Namespace: ns}, obj.(kclient.Object))
      if err == nil {
          runtimeObject = obj
      } else if !apierror.IsNotFound(err) {
          return nil, err
      }
      if runtimeObject == nil { m.forgetBackoff(gvk, key) }
      return m.handle(ctx, gvk, key, runtimeObject, fromTrigger)
  }
  \<close>
  The decoding of the key prefix: the flags \<open>fromTrigger\<close> and \<open>fromReplay\<close> and
  the key without its marker.
\<close>

definition decode_key :: "string \<Rightarrow> bool \<times> bool \<times> string" where
  "decode_key key0 =
     (let fromTrigger1 = strings_HasPrefix key0 TriggerPrefix;
          key1 = (if fromTrigger1 then strings_TrimPrefix key0 TriggerPrefix else key0)
      in if strings_HasPrefix key1 ReplayPrefix
         then (False, True, strings_TrimPrefix key1 ReplayPrefix)
         else (fromTrigger1, False, key1))"

definition onChange ::
  "Env \<Rightarrow> HandlerSet \<Rightarrow> GroupVersionKind \<Rightarrow> string \<Rightarrow> kobject option
     \<Rightarrow> HandlerSet \<times> event list \<times> kobject option \<times> error option" where
  "onChange m hs gvk key0 runtimeObject =
     (case decode_key key0 of
        (fromTrigger, fromReplay, key) \<Rightarrow>
          (case (if \<not> fromReplay \<and> \<not> fromTrigger then checkDelay m hs gvk key
                 else (True, hs, [])) of
             (pass, hs1, ev0) \<Rightarrow>
               if \<not> pass then (hs1, ev0, runtimeObject, None)
               else
                 (case scheme_New m gvk of
                    Some err \<Rightarrow> (hs1, ev0 @ [SchemeNew gvk], None, Some err)
                  | None \<Rightarrow>
                      (case strings_Cut key ''/'' of
                         (ns0, name0, ok) \<Rightarrow>
                           (let ns = (if \<not> ok then '''' else ns0);
                                name = (if \<not> ok then key else name0);
                                lockKey = Kind gvk @ '' '' @ key;
                                ev1 = ev0 @ [SchemeNew gvk, Lock lockKey, BackendGet gvk ns name]
                            in case (case backend_Get m gvk ns name of
                                       Inr obj \<Rightarrow> Inr (Some obj)
                                     | Inl err \<Rightarrow>
                                         if \<not> IsNotFound err then Inl err
                                         else Inr runtimeObject) of
                                 Inl err \<Rightarrow> (hs1, ev1 @ [Unlock lockKey], None, Some err)
                               | Inr runtimeObject1 \<Rightarrow>
                                   (let hs2 = (if runtimeObject1 = None
                                               then forgetBackoff hs1 gvk key else hs1)
                                    in case handle m gvk key runtimeObject1 fromTrigger of
                                         (ev2, obj, err) \<Rightarrow>
                                           (hs2, ev1 @ ev2 @ [Unlock lockKey], obj, err)))))))"

section \<open>Reading a trace\<close>

text \<open>The calls of the trigger registry in a trace, in order.\<close>

fun is_registry_call :: "event \<Rightarrow> bool" where
  "is_registry_call (UnregisterAndTrigger req) = True"
| "is_registry_call (Trigger req) = True"
| "is_registry_call other = False"

definition registry_calls :: "event list \<Rightarrow> event list" where
  "registry_calls evs = filter is_registry_call evs"

text \<open>
  The error that ends a dispatch in its first phase: a handler of the chain returned an
  error and the error callback (or, without a callback, the error itself) is not nil.
\<close>

definition handler_abort ::
  "Env \<Rightarrow> GroupVersionKind \<Rightarrow> string \<Rightarrow> kobject option \<Rightarrow> bool \<Rightarrow> error option" where
  "handler_abort m gvk key unmodifiedObject trigger =
     (case newRequestResponse gvk key unmodifiedObject trigger of
        (req0, resp0) \<Rightarrow>
          if handlers_Handles m req0
          then (case run_handlers m req0 resp0 of (ev1, req, resp, err) \<Rightarrow> err)
          else None)"

text \<open>The request as the trigger registry sees it: after the handler chain, if it ran.\<close>

definition request_after_handlers ::
  "Env \<Rightarrow> GroupVersionKind \<Rightarrow> string \<Rightarrow> kobject option \<Rightarrow> bool \<Rightarrow> Request" where
  "request_after_handlers m gvk key unmodifiedObject trigger =
     (case newRequestResponse gvk key unmodifiedObject trigger of
        (req0, resp0) \<Rightarrow>
          if handlers_Handles m req0
          then (case run_handlers m req0 resp0 of (ev1, req, resp, err) \<Rightarrow> req)
          else req0)"

section \<open>The write-through cache client (pkg/runtime/cached.go)\<close>

text \<open>
  \<open>objectKey\<close> is the struct \<open>{gvk; namespace, name string}\<close>, here a triple;
  \<open>objectValue\<close> holds the stored copy and the time of insertion. An
  \<open>ObjectKey\<close> of the client library is the pair of a namespace and a name.
\<close>

type_synonym objectKey = "GroupVersionKind \<times> string \<times> string"

record objectValue =
  StoredObject :: kobject
  Inserted :: int

type_synonym ObjectKey = "string \<times> string"

record cacheClient =
  recent :: "objectKey \<rightharpoonup> objectValue"

text \<open>
  The object argument of a client call: the object itself, or an
  \<open>untriggered.Holder\<close> around it, which says whether the call is to go uncached.
\<close>

datatype client_arg =
    Direct kobject
  | Holder bool kobject

text \<open>
  The two clients under the cache client and the scheme, as parameters. A \<open>Get\<close>
  takes the key and the target object and returns its error and the target as the call
  leaves it; a \<open>Create\<close> returns its error and the object as the server filled it in;
  \<open>GVKForObject\<close> is \<open>apiutil.GVKForObject(obj, c.Scheme())\<close>.
\<close>

record clients =
  uncached_Get :: "ObjectKey \<Rightarrow> kobject \<Rightarrow> error option \<times> kobject"
  cached_Get :: "ObjectKey \<Rightarrow> kobject \<Rightarrow> error option \<times> kobject"
  uncached_Create :: "kobject \<Rightarrow> error option \<times> kobject"
  cached_Create :: "kobject \<Rightarrow> error option \<times> kobject"
  GVKForObject :: "kobject \<Rightarrow> error + GroupVersionKind"

text \<open>\<open>errors.Join\<close> drops nil errors and returns nil when none is left.\<close>

definition errors_Join :: "error option list \<Rightarrow> error option" where
  "errors_Join errs =
     (case concat (map (\<lambda>e. case e of None \<Rightarrow> [] | Some x \<Rightarrow> [x]) errs) of
        [] \<Rightarrow> None
      | x # xs \<Rightarrow> Some (Joined (x # xs)))"

text \<open>
  Modelled from the spec: \<open>CopyInto\<close>, a function of this package that is not among
  the source files; the specification says of the two places that call it that they
  return the cached copy. It overwrites the target with the copy and returns no error.
\<close>

definition CopyInto :: "kobject \<Rightarrow> kobject \<Rightarrow> error option \<times> kobject" where
  "CopyInto dst src = (None, src)"

text \<open>
  \<^verbatim>\<open>
  func (c *cacheClient) store(obj kclient.Object) {
      gvk, err := apiutil.GVKForObject(obj, c.Scheme())
      if err != nil { return }
      c.recentLock.Lock()
      c.recent[objectKey{gvk: gvk, namespace: obj.GetNamespace(), name: obj.GetName()}] =
          objectValue{Object: obj.DeepCopyObject().(kclient.Object), Inserted: time.Now()}
      c.recentLock.Unlock()
  }
  \<close>
\<close>

definition store :: "clients \<Rightarrow> cacheClient \<Rightarrow> int \<Rightarrow> kobject \<Rightarrow> cacheClient" where
  "store cl c now obj =
     (case GVKForObject cl obj of
        Inl err \<Rightarrow> c
      | Inr gvk \<Rightarrow>
          c\<lparr>recent := (recent c)((gvk, GetNamespace obj, GetName obj)
                          \<mapsto> \<lparr>StoredObject = obj, Inserted = now\<rparr>)\<rparr>)"

text \<open>
  \<^verbatim>\<open>
  func (c *cacheClient) Get(ctx, key kclient.ObjectKey, obj kclient.Object, opts ...) error {
      if u, ok := obj.(*untriggered.Holder); ok {
          obj = u.Object
          if u.IsUncached() { return c.uncached.Get(ctx, key, obj, opts...) }
      }
      getErr := c.cached.Get(ctx, key, obj)
      if getErr != nil && !apierrors.IsNotFound(getErr) { return getErr }
      gvk, err := apiutil.GVKForObject(obj, c.Scheme())
      if err != nil { return errors.Join(getErr, err) }
      cacheKey := objectKey{gvk: gvk, namespace: obj.GetNamespace(), name: obj.GetName()}
      c.recentLock.Lock()
      cachedObj, ok := c.recent[cacheKey]
      c.recentLock.Unlock()
      if apierrors.IsNotFound(getErr) {
          if ok { return CopyInto(obj, cachedObj.Object) }
          return getErr
      }
      if ok && newer(obj.GetResourceVersion(), cachedObj.Object.GetResourceVersion()) {
          return CopyInto(obj, cachedObj.Object)
      }
      return nil
  }
  \<close>
  The result is the returned error and the target object as the call leaves it.
\<close>

definition cacheClient_Get ::
  "clients \<Rightarrow> cacheClient \<Rightarrow> ObjectKey \<Rightarrow> client_arg \<Rightarrow> error option \<times> kobject" where
  "cacheClient_Get cl c key arg =
     (case (case arg of
              Direct ob \<Rightarrow> Inr ob
            | Holder isUncached ob \<Rightarrow> if isUncached then Inl ob else Inr ob) of
        Inl ob \<Rightarrow> uncached_Get cl key ob
      | Inr ob \<Rightarrow>
          (case cached_Get cl key ob of
             (getErr, obj) \<Rightarrow>
               (let notFound = (case getErr of None \<Rightarrow> False | Some e \<Rightarrow> IsNotFound e) in
                if getErr \<noteq> None \<and> \<not> notFound then (getErr, obj)
                else
                  (case GVKForObject cl obj of
                     Inl err \<Rightarrow> (errors_Join [getErr, Some err], obj)
                   | Inr gvk \<Rightarrow>
                       (let cacheKey = (gvk, GetNamespace obj, GetName obj) in
                        case recent c cacheKey of
                          None \<Rightarrow> if notFound then (getErr, obj) else (None, obj)
                        | Some cachedObj \<Rightarrow>
                            if notFound then CopyInto obj (StoredObject cachedObj)
                            else if newer (GetResourceVersion obj)
                                      (GetResourceVersion (StoredObject cachedObj))
                            then CopyInto obj (StoredObject cachedObj)
                            else (None, obj))))))"

text \<open>
  \<^verbatim>\<open>
  func (c *cacheClient) Create(ctx, obj kclient.Object, opts ...) error {
      if u, ok := obj.(*untriggered.Holder); ok {
          obj = u.Object
          if u.IsUncached() { return c.uncached.Create(ctx, obj, opts...) }
      }
      err := c.cached.Create(ctx, obj, opts...)
      if err != nil { return err }
      c.store(obj)
      return nil
  }
  \<close>
  The result is the cache client after the call, the returned error and the object as
  the call leaves it; \<open>now\<close> is the time of the call.
\<close>

definition cacheClient_Create ::
  "clients \<Rightarrow> cacheClient \<Rightarrow> int \<Rightarrow> client_arg \<Rightarrow> cacheClient \<times> error option \<times> kobject" where
  "cacheClient_Create cl c now arg =
     (case (case arg of
              Direct ob \<Rightarrow> Inr ob
            | Holder isUncached ob \<Rightarrow> if isUncached then Inl ob else Inr ob) of
        Inl ob \<Rightarrow> (case uncached_Create cl ob of (err, obj) \<Rightarrow> (c, err, obj))
      | Inr ob \<Rightarrow>
          (case cached_Create cl ob of
             (Some err, obj) \<Rightarrow> (c, Some err, obj)
           | (None, obj) \<Rightarrow> (store cl c now obj, None, obj)))"

section \<open>Properties of the key encoding\<close>

lemma strings_Cut_absent: "c \<notin> set s \<Longrightarrow> strings_Cut s [c] = (s, [], False)"
  by (induction s) (auto simp: strings_HasPrefix_def)

lemma strings_Cut_first: "c \<notin> set a \<Longrightarrow> strings_Cut (a @ c # b) [c] = (a, b, True)"
  by (induction a) (auto simp: strings_HasPrefix_def)

lemma KeyParse_plain:
  assumes "CHR '' '' \<notin> set k"
  shows "KeyParse k = (case strings_Cut k ''/'' of (a, b, ok) \<Rightarrow> if \<not> ok then ('''', a) else (a, b))"
  using assms by (simp add: KeyParse_def strings_Cut_absent)

lemma KeyParse_marked:
  assumes "c \<noteq> CHR '' ''" 
  shows "KeyParse (CHR ''_'' # c # CHR '' '' # k) = (case strings_Cut k ''/'' of (a, b, ok) \<Rightarrow> if \<not> ok then ('''', a) else (a, b))"
proof -
  have "strings_Cut ([CHR ''_'', c] @ CHR '' '' # k) '' '' = ([CHR ''_'', c], k, True)"
    using assms by (intro strings_Cut_first) auto
  then show ?thesis by (simp add: KeyParse_def)
qed

text \<open>
  Claim C10. Key encoding round-trip: for every namespace and every non-empty name, neither
  containing a slash or a space, \<open>KeyParse (keyFunc namespace name)\<close> is exactly
  \<open>(namespace, name)\<close>, where \<open>keyFunc\<close> yields the name alone when the
  namespace is empty and \<open>namespace/name\<close> otherwise; and putting a control marker
  (an underscore, one marker byte, a space) in front of such a key leaves the parse
  unchanged.
\<close>

theorem KeyParse_keyFunc_roundtrip:
  assumes "CHR ''/'' \<notin> set namespace" "CHR '' '' \<notin> set namespace"
    and "name \<noteq> ''''" "CHR ''/'' \<notin> set name" "CHR '' '' \<notin> set name"
  shows "keyFunc namespace name = (if namespace = '''' then name else namespace @ ''/'' @ name)
       \<and> KeyParse (keyFunc namespace name) = (namespace, name)
       \<and> (\<forall>c. c \<noteq> CHR '' '' \<longrightarrow>
            KeyParse ([CHR ''_'', c, CHR '' ''] @ keyFunc namespace name)
              = KeyParse (keyFunc namespace name))"
proof -
  have nosp: "CHR '' '' \<notin> set (keyFunc namespace name)"
    using assms by (auto simp: keyFunc_def)
  have rt: "KeyParse (keyFunc namespace name) = (namespace, name)"
  proof (cases "namespace = ''''")
    case True
    then show ?thesis using assms by (simp add: KeyParse_plain keyFunc_def strings_Cut_absent)
  next
    case False
    have "strings_Cut (namespace @ CHR ''/'' # name) ''/'' = (namespace, name, True)"
      using assms by (intro strings_Cut_first) 
    then show ?thesis using False nosp by (simp add: KeyParse_plain) (simp add: keyFunc_def)
  qed
  have "KeyParse ([CHR ''_'', c, CHR '' ''] @ keyFunc namespace name) = KeyParse (keyFunc namespace name)"
    if "c \<noteq> CHR '' ''" for c
    using that nosp by (simp add: KeyParse_marked KeyParse_plain)
  with rt show ?thesis by (simp add: keyFunc_def)
qed

theorem KeyParse_keyFunc_roundtrip_witness:
  "KeyParse (keyFunc ''foo'' ''a'') = (''foo'', ''a'')
   \<and> KeyParse (keyFunc '''' ''a'') = ('''', ''a'')
   \<and> KeyParse (''_t '' @ keyFunc ''foo'' ''a'') = KeyParse (keyFunc ''foo'' ''a'')
   \<and> KeyParse (''_r '' @ keyFunc '''' ''a'') = (('''', ''a''))"
  using KeyParse_keyFunc_roundtrip [of "''foo''" "''a''"] KeyParse_keyFunc_roundtrip [of "''''" "''a''"]
  by (simp add: keyFunc_def)

section \<open>Properties of the resource-version ordering\<close>

text \<open>
  Claim C7. \<open>newer oldRV newRV\<close> holds exactly when the two strings have equal
  length and \<open>oldRV\<close> is lexicographically less than \<open>newRV\<close>; or the lengths
  differ and both parse as integers with the old one smaller; or the lengths differ and
  \<open>oldRV\<close> does not parse. It never holds when the lengths differ, \<open>oldRV\<close>
  parses and \<open>newRV\<close> does not.
\<close>

theorem newer_characterisation:
  "(newer oldRV newRV \<longleftrightarrow>
      (length oldRV = length newRV \<and> string_less oldRV newRV)
    \<or> (length oldRV \<noteq> length newRV \<and>
         (\<exists>a b. strconv_Atoi oldRV = Some a \<and> strconv_Atoi newRV = Some b \<and> a < b))
    \<or> (length oldRV \<noteq> length newRV \<and> strconv_Atoi oldRV = None))
   \<and> (length oldRV \<noteq> length newRV \<and> strconv_Atoi oldRV \<noteq> None \<and> strconv_Atoi newRV = None
        \<longrightarrow> \<not> newer oldRV newRV)"
  by (auto simp: newer_def split: option.splits)

theorem newer_characterisation_witness:
  "newer ''9'' ''10'' \<and> \<not> newer ''10'' ''9'' \<and> newer ''abc'' ''10''
   \<and> length ''10'' \<noteq> length ''abc'' \<and> strconv_Atoi ''10'' \<noteq> None \<and> strconv_Atoi ''abc'' = None
   \<and> \<not> newer ''10'' ''abc'' \<and> newer ''ab'' ''ac''"
  using newer_characterisation [of "''10''" "''abc''"] newer_characterisation [of "''9''" "''10''"]
  by (simp add: newer_def strconv_Atoi_def is_digit_def)

section \<open>Properties of syncHandler\<close>

lemma isSpecialKey_shape:
  "isSpecialKey key \<longleftrightarrow> (\<exists>c rest. key = CHR ''_'' # c # CHR '' '' # rest)"
proof
  assume a: "isSpecialKey key"
  then obtain u c sp rest where k: "key = u # c # sp # rest"
    by (cases key; cases "tl key"; cases "tl (tl key)") (auto simp: isSpecialKey_def)
  with a show "\<exists>c rest. key = CHR ''_'' # c # CHR '' '' # rest"
    by (auto simp: isSpecialKey_def)
next
  assume "\<exists>c rest. key = CHR ''_'' # c # CHR '' '' # rest"
  then show "isSpecialKey key" by (auto simp: isSpecialKey_def)
qed

lemma spec_special_shape_iff:
  "spec_special_shape key \<longleftrightarrow> (\<exists>c rest. key = CHR ''_'' # c # CHR '' '' # rest \<and> is_ascii_letter c)"
  by (cases key rule: spec_special_shape.cases) auto

text \<open>
  Claim C5, as stated: \<open>syncHandler\<close> calls the handler with a nil object, without
  fetching, exactly for keys of the shape underscore, one ASCII letter, space, rest. The
  key \<open>_1 a\<close> is not of that shape (its marker byte is a digit), and \<open>syncHandler\<close>
  still calls the handler with nil and never asks the cache, which here would have
  failed.
\<close>

theorem syncHandler_special_keys_counterexample:
  "\<not> spec_special_shape ''_1 a''
   \<and> syncHandler (\<lambda>ns name. Inl (Failure ''unavailable'')) (\<lambda>key obj. None) ''_1 a''
       = ([HandlerOnChange ''_1 a'' None], None)"
  by (simp add: syncHandler_def isSpecialKey_def is_ascii_letter_def)

text \<open>
  Claim C5, amended. \<open>syncHandler\<close> calls the handler with a nil object, without
  fetching, exactly for the keys of at least three bytes whose first byte is an
  underscore and whose third byte is a space; the second byte is any byte (every key of
  the shape underscore, ASCII letter, space, rest is among them). For every other key it
  parses namespace and name, fetches the object from the cache, calls the handler with
  nil on not-found and with the fetched object on success, and on any other error of the
  fetch returns that error without calling the handler.
\<close>

theorem syncHandler_special_keys:
  "(isSpecialKey key \<longleftrightarrow> (\<exists>c rest. key = CHR ''_'' # c # CHR '' '' # rest))
   \<and> (spec_special_shape key \<longrightarrow> isSpecialKey key)
   \<and> (isSpecialKey key \<longrightarrow>
        syncHandler cache_Get handler_OnChange key
          = ([HandlerOnChange key None], handler_OnChange key None))
   \<and> (\<not> isSpecialKey key \<longrightarrow>
        (\<forall>ns name. KeyParse key = (ns, name) \<longrightarrow>
           (\<forall>err. cache_Get ns name = Inl err \<and> IsNotFound err \<longrightarrow>
              syncHandler cache_Get handler_OnChange key
                = ([CacheGet ns name, HandlerOnChange key None], handler_OnChange key None))
         \<and> (\<forall>err. cache_Get ns name = Inl err \<and> \<not> IsNotFound err \<longrightarrow>
              syncHandler cache_Get handler_OnChange key = ([CacheGet ns name], Some err))
         \<and> (\<forall>obj. cache_Get ns name = Inr obj \<longrightarrow>
              syncHandler cache_Get handler_OnChange key
                = ([CacheGet ns name, HandlerOnChange key (Some obj)],
                   handler_OnChange key (Some obj)))))"
proof -
  have "spec_special_shape key \<longrightarrow> isSpecialKey key"
    unfolding spec_special_shape_iff isSpecialKey_shape by blast
  then show ?thesis
    using isSpecialKey_shape [of key] by (simp add: syncHandler_def)
qed

theorem syncHandler_special_keys_witness:
  "isSpecialKey ''_t foo/a'' \<and> spec_special_shape ''_t foo/a''
   \<and> syncHandler (\<lambda>ns name. Inl (Failure ''unavailable'')) (\<lambda>key obj. None) ''_t foo/a''
        = ([HandlerOnChange ''_t foo/a'' None], None)
   \<and> \<not> isSpecialKey ''foo/a'' \<and> KeyParse ''foo/a'' = (''foo'', ''a'')
   \<and> syncHandler (\<lambda>ns name. Inl (NotFound ''gone'')) (\<lambda>key obj. None) ''foo/a''
        = ([CacheGet ''foo'' ''a'', HandlerOnChange ''foo/a'' None], None)
   \<and> syncHandler (\<lambda>ns name. Inl (Failure ''unavailable'')) (\<lambda>key obj. None) ''foo/a''
        = ([CacheGet ''foo'' ''a''], Some (Failure ''unavailable''))"
  using syncHandler_special_keys [of "''_t foo/a''" "\<lambda>ns name. Inl (Failure ''unavailable'')" "\<lambda>key obj. None"]
    syncHandler_special_keys [of "''foo/a''" "\<lambda>ns name. Inl (NotFound ''gone'')" "\<lambda>key obj. None"]
    syncHandler_special_keys [of "''foo/a''" "\<lambda>ns name. Inl (Failure ''unavailable'')" "\<lambda>key obj. None"]
  by (simp add: isSpecialKey_def is_ascii_letter_def KeyParse_def strings_HasPrefix_def)

section \<open>Properties of the shared handler chain\<close>

lemma next_obj_accepted: "next_obj obj r = (if accepted r then r else obj)"
  by (cases r) auto

lemma length_chain_objs: "length (chain_objs hs key obj) = length hs"
  by (induction hs arbitrary: obj) auto

lemma append_handler_error_reported:
  "append_handler_error errs (entry_name h) err = errs @ reported_error h err"
  by (simp add: append_handler_error_def reported_error_def split: option.splits)

lemma OnChange_loop_unfold:
  "OnChange_loop hs key obj errs calls =
     (errs @ concat (map (\<lambda>(h, ob). reported_error h (snd (entry_handler h key ob)))
                      (zip hs (chain_objs hs key obj))),
      calls @ zip (map entry_id hs) (chain_objs hs key obj))"
proof (induction hs arbitrary: obj errs calls)
  case Nil
  then show ?case by simp
next
  case (Cons h hs)
  show ?case
    by (cases "entry_handler h key obj") (simp add: Cons.IH append_handler_error_reported)
qed

lemma SharedHandler_OnChange_unfold:
  "SharedHandler_OnChange hs key obj =
     (ToErr (concat (map (\<lambda>(h, ob). reported_error h (snd (entry_handler h key ob)))
                      (zip hs (chain_objs hs key obj)))),
      zip (map entry_id hs) (chain_objs hs key obj))"
  by (simp add: SharedHandler_OnChange_def OnChange_loop_unfold)

lemma ToErr_cases:
  "ToErr es = (if es = [] then None else if length es = 1 then Some (hd es) else Some (errorList es))"
  by (cases es rule: ToErr.cases) auto

lemma zip_map_snd_zip:
  "length xs = length ys \<Longrightarrow> length hs = length ys \<Longrightarrow>
   map (\<lambda>(h, c). f h (snd c)) (zip hs (zip xs ys)) = map (\<lambda>(h, ob). f h ob) (zip hs ys)"
proof (induction hs arbitrary: xs ys)
  case Nil
  then show ?case by simp
next
  case (Cons h hs)
  then show ?case by (cases xs; cases ys) auto
qed

text \<open>
  Claim C8. \<open>SharedHandler.OnChange\<close> invokes every registered handler, in
  registration order, whatever errors the earlier ones returned; every handler error
  that does not match \<open>ErrIgnore\<close> is accumulated, tagged with the handler's name;
  the call returns nil when there is no such error, the single tagged error when there
  is exactly one, and the aggregate \<open>errorList\<close> of all of them otherwise.
\<close>

theorem SharedHandler_OnChange_errors:
  assumes "SharedHandler_OnChange handlers key obj = (r, calls)"
  shows "map fst calls = map entry_id handlers
       \<and> (let errs = concat (map (\<lambda>(h, c). reported_error h (snd (entry_handler h key (snd c))))
                               (zip handlers calls))
          in r = (if errs = [] then None
                  else if length errs = 1 then Some (hd errs)
                  else Some (errorList errs)))"
proof -
  let ?objs = "chain_objs handlers key obj"
  have c: "calls = zip (map entry_id handlers) ?objs"
    and r: "r = ToErr (concat (map (\<lambda>(h, ob). reported_error h (snd (entry_handler h key ob)))
                      (zip handlers ?objs)))"
    using assms by (simp_all add: SharedHandler_OnChange_unfold)
  have len: "length (map entry_id handlers) = length ?objs" "length handlers = length ?objs"
    by (simp_all add: length_chain_objs)
  have m: "map (\<lambda>(h, c). reported_error h (snd (entry_handler h key (snd c)))) (zip handlers calls)
         = map (\<lambda>(h, ob). reported_error h (snd (entry_handler h key ob))) (zip handlers ?objs)"
    unfolding c using zip_map_snd_zip [OF len, of "\<lambda>h ob. reported_error h (snd (entry_handler h key ob))"]
    by simp
  have "map fst calls = map entry_id handlers"
    unfolding c using len by simp
  then show ?thesis
    unfolding m r by (simp add: ToErr_cases Let_def)
qed

lemma chain_objs_0: "hs \<noteq> [] \<Longrightarrow> chain_objs hs key obj ! 0 = obj"
  by (cases hs) auto

lemma chain_objs_Suc:
  "Suc i < length hs \<Longrightarrow>
   chain_objs hs key obj ! Suc i
     = next_obj (chain_objs hs key obj ! i)
         (fst (entry_handler (hs ! i) key (chain_objs hs key obj ! i)))"
proof (induction hs arbitrary: obj i)
  case Nil
  then show ?case by simp
next
  case (Cons h hs)
  then show ?case by (cases i) (auto simp: chain_objs_0)
qed

lemma chain_objs_persist:
  assumes "i < j" "j < length hs"
    and "accepted (fst (entry_handler (hs ! i) key (chain_objs hs key obj ! i)))"
    and "\<And>k. i < k \<Longrightarrow> k < j \<Longrightarrow> \<not> accepted (fst (entry_handler (hs ! k) key (chain_objs hs key obj ! k)))"
  shows "chain_objs hs key obj ! j = fst (entry_handler (hs ! i) key (chain_objs hs key obj ! i))"
  using assms
proof (induction j)
  case 0
  then show ?case by simp
next
  case (Suc j)
  show ?case
  proof (cases "i = j")
    case True
    with Suc.prems show ?thesis by (simp add: chain_objs_Suc next_obj_accepted)
  next
    case False
    with Suc.prems have ij: "i < j" "j < length hs" by auto
    have "chain_objs hs key obj ! j = fst (entry_handler (hs ! i) key (chain_objs hs key obj ! i))"
      using Suc.IH ij Suc.prems by auto
    moreover have "\<not> accepted (fst (entry_handler (hs ! j) key (chain_objs hs key obj ! j)))"
      using Suc.prems ij by auto
    ultimately show ?thesis using Suc.prems by (simp add: chain_objs_Suc next_obj_accepted)
  qed
qed


theorem SharedHandler_OnChange_errors_witness:
  "SharedHandler_OnChange
     [\<lparr>entry_id = 1, entry_name = ''first'',
        entry_handler = (\<lambda>key obj. (NilObject, Some (Failure ''a'')))\<rparr>,
      \<lparr>entry_id = 2, entry_name = ''second'',
        entry_handler = (\<lambda>key obj. (NilObject, Some (Wrapped ''[route] '' ErrIgnore)))\<rparr>,
      \<lparr>entry_id = 3, entry_name = ''third'',
        entry_handler = (\<lambda>key obj. (NilObject, Some (Failure ''b'')))\<rparr>]
     ''foo/a'' NilObject
   = (Some (errorList [handlerError ''first'' (Failure ''a''), handlerError ''third'' (Failure ''b'')]),
      [(1, NilObject), (2, NilObject), (3, NilObject)])
   \<and> map fst [(1 :: int, NilObject), (2, NilObject), (3, NilObject)] = [1, 2, 3]"
proof -
  let ?hs = "[\<lparr>entry_id = 1, entry_name = ''first'',
        entry_handler = (\<lambda>key obj. (NilObject, Some (Failure ''a'')))\<rparr>,
      \<lparr>entry_id = 2, entry_name = ''second'',
        entry_handler = (\<lambda>key obj. (NilObject, Some (Wrapped ''[route] '' ErrIgnore)))\<rparr>,
      \<lparr>entry_id = 3, entry_name = ''third'',
        entry_handler = (\<lambda>key obj. (NilObject, Some (Failure ''b'')))\<rparr>]"
  have run: "SharedHandler_OnChange ?hs ''foo/a'' NilObject
    = (Some (errorList [handlerError ''first'' (Failure ''a''), handlerError ''third'' (Failure ''b'')]),
      [(1, NilObject), (2, NilObject), (3, NilObject)])"
    by (simp add: SharedHandler_OnChange_def append_handler_error_def)
  from SharedHandler_OnChange_errors [OF run] run show ?thesis by simp
qed

text \<open>
  Claim C9, as stated: whenever a handler returns a non-nil object, the later handlers
  are invoked with it, and a returned object without a persistent identity is still
  preferred over a previous empty object. Here the first handler returns a non-nil
  object whose UID is empty while the current object is nil, and the second handler is
  invoked with nil.
\<close>

theorem SharedHandler_OnChange_threading_counterexample:
  "fst (entry_handler
          \<lparr>entry_id = 1, entry_name = ''first'',
            entry_handler = (\<lambda>key obj.
              (Pointer \<lparr>GetNamespace = ''foo'', GetName = ''a'', GetUID = '''',
                        GetResourceVersion = '''', Content = ''new''\<rparr>, None))\<rparr>
          ''foo/a'' NilObject)
     = Pointer \<lparr>GetNamespace = ''foo'', GetName = ''a'', GetUID = '''',
                GetResourceVersion = '''', Content = ''new''\<rparr>
   \<and> snd (SharedHandler_OnChange
          [\<lparr>entry_id = 1, entry_name = ''first'',
             entry_handler = (\<lambda>key obj.
               (Pointer \<lparr>GetNamespace = ''foo'', GetName = ''a'', GetUID = '''',
                         GetResourceVersion = '''', Content = ''new''\<rparr>, None))\<rparr>,
           \<lparr>entry_id = 2, entry_name = ''second'',
             entry_handler = (\<lambda>key obj. (NilObject, None))\<rparr>]
          ''foo/a'' NilObject)
     = [(1, NilObject), (2, NilObject)]"
  by (simp add: SharedHandler_OnChange_def append_handler_error_def)

text \<open>
  Claim C9, amended. The first handler is invoked with the object of the event. When a
  handler returns a non-nil object whose metadata can be read and whose UID is not
  empty, or a non-nil object whose metadata cannot be read, the next handler is invoked
  with that object, and so is every later handler up to and including the next one that
  returns such an object. When a handler returns nil, a nil pointer, or an object whose
  metadata can be read and whose UID is empty, the next handler is invoked with the
  object this handler was invoked with.
\<close>

theorem SharedHandler_OnChange_threading:
  assumes "SharedHandler_OnChange handlers key obj = (r, calls)"
  shows "length calls = length handlers
       \<and> (handlers \<noteq> [] \<longrightarrow> snd (calls ! 0) = obj)
       \<and> (\<forall>i. Suc i < length handlers \<longrightarrow>
            (let seen = snd (calls ! i);
                 ret = fst (entry_handler (handlers ! i) key seen)
             in snd (calls ! Suc i) =
                  (case ret of
                     NilObject \<Rightarrow> seen
                   | NilPointer \<Rightarrow> seen
                   | Pointer m \<Rightarrow> if GetUID m \<noteq> '''' then ret else seen
                   | NoMetadata d \<Rightarrow> ret)))
       \<and> (\<forall>i j. i < j \<and> j < length handlers
              \<and> accepted (fst (entry_handler (handlers ! i) key (snd (calls ! i))))
              \<and> (\<forall>k. i < k \<and> k < j \<longrightarrow>
                    \<not> accepted (fst (entry_handler (handlers ! k) key (snd (calls ! k)))))
              \<longrightarrow> snd (calls ! j) = fst (entry_handler (handlers ! i) key (snd (calls ! i))))"
proof -
  let ?objs = "chain_objs handlers key obj"
  have c: "calls = zip (map entry_id handlers) ?objs"
    using assms by (simp add: SharedHandler_OnChange_unfold)
  have len: "length calls = length handlers"
    unfolding c by (simp add: length_chain_objs)
  have nth: "snd (calls ! i) = ?objs ! i" if "i < length handlers" for i
    unfolding c using that by (simp add: length_chain_objs)
  have first: "handlers \<noteq> [] \<longrightarrow> snd (calls ! 0) = obj"
    using nth [of 0] by (auto simp: chain_objs_0)
  have step: "snd (calls ! Suc i) =
        (case fst (entry_handler (handlers ! i) key (snd (calls ! i))) of
           NilObject \<Rightarrow> snd (calls ! i)
         | NilPointer \<Rightarrow> snd (calls ! i)
         | Pointer m \<Rightarrow> if GetUID m \<noteq> ''''
                        then fst (entry_handler (handlers ! i) key (snd (calls ! i)))
                        else snd (calls ! i)
         | NoMetadata d \<Rightarrow> fst (entry_handler (handlers ! i) key (snd (calls ! i))))"
    if "Suc i < length handlers" for i
  proof -
    have "snd (calls ! Suc i) = next_obj (snd (calls ! i))
            (fst (entry_handler (handlers ! i) key (snd (calls ! i))))"
      using that nth [of i] nth [of "Suc i"] chain_objs_Suc [of i handlers key obj] by simp
    then show ?thesis
      by (cases "fst (entry_handler (handlers ! i) key (snd (calls ! i)))") simp_all
  qed
  have persist: "snd (calls ! j) = fst (entry_handler (handlers ! i) key (snd (calls ! i)))"
    if "i < j" "j < length handlers"
      and "accepted (fst (entry_handler (handlers ! i) key (snd (calls ! i))))"
      and "\<forall>k. i < k \<and> k < j \<longrightarrow>
              \<not> accepted (fst (entry_handler (handlers ! k) key (snd (calls ! k))))"
    for i j
  proof -
    have i: "snd (calls ! i) = ?objs ! i" and j: "snd (calls ! j) = ?objs ! j"
      using that nth by auto
    have "\<not> accepted (fst (entry_handler (handlers ! k) key (?objs ! k)))"
      if "i < k" "k < j" for k
      using that \<open>j < length handlers\<close> nth [of k]
        \<open>\<forall>k. i < k \<and> k < j \<longrightarrow>
              \<not> accepted (fst (entry_handler (handlers ! k) key (snd (calls ! k))))\<close>
      by auto
    then have "?objs ! j = fst (entry_handler (handlers ! i) key (?objs ! i))"
      using chain_objs_persist [of i j handlers key obj] that i by auto
    then show ?thesis using i j by simp
  qed
  show ?thesis
    using len first step persist by (simp add: Let_def)
qed

theorem SharedHandler_OnChange_threading_witness:
  "SharedHandler_OnChange
     [\<lparr>entry_id = 1, entry_name = ''first'',
        entry_handler = (\<lambda>key obj.
          (Pointer \<lparr>GetNamespace = ''foo'', GetName = ''a'', GetUID = ''u1'',
                    GetResourceVersion = ''7'', Content = ''new''\<rparr>, None))\<rparr>,
      \<lparr>entry_id = 2, entry_name = ''second'',
        entry_handler = (\<lambda>key obj.
          (Pointer \<lparr>GetNamespace = ''foo'', GetName = ''a'', GetUID = '''',
                    GetResourceVersion = '''', Content = ''blank''\<rparr>, None))\<rparr>,
      \<lparr>entry_id = 3, entry_name = ''third'',
        entry_handler = (\<lambda>key obj. (NilObject, None))\<rparr>]
     ''foo/a'' NilObject
   = (None,
      [(1, NilObject),
       (2, Pointer \<lparr>GetNamespace = ''foo'', GetName = ''a'', GetUID = ''u1'',
                    GetResourceVersion = ''7'', Content = ''new''\<rparr>),
       (3, Pointer \<lparr>GetNamespace = ''foo'', GetName = ''a'', GetUID = ''u1'',
                    GetResourceVersion = ''7'', Content = ''new''\<rparr>)])
   \<and> length [(1 :: int, NilObject),
       (2, Pointer \<lparr>GetNamespace = ''foo'', GetName = ''a'', GetUID = ''u1'',
                    GetResourceVersion = ''7'', Content = ''new''\<rparr>),
       (3, Pointer \<lparr>GetNamespace = ''foo'', GetName = ''a'', GetUID = ''u1'',
                    GetResourceVersion = ''7'', Content = ''new''\<rparr>)] = 3"
proof -
  let ?hs = "[\<lparr>entry_id = 1, entry_name = ''first'',
        entry_handler = (\<lambda>key obj.
          (Pointer \<lparr>GetNamespace = ''foo'', GetName = ''a'', GetUID = ''u1'',
                    GetResourceVersion = ''7'', Content = ''new''\<rparr>, None))\<rparr>,
      \<lparr>entry_id = 2, entry_name = ''second'',
        entry_handler = (\<lambda>key obj.
          (Pointer \<lparr>GetNamespace = ''foo'', GetName = ''a'', GetUID = '''',
                    GetResourceVersion = '''', Content = ''blank''\<rparr>, None))\<rparr>,
      \<lparr>entry_id = 3, entry_name = ''third'',
        entry_handler = (\<lambda>key obj. (NilObject, None))\<rparr>]"
  have run: "SharedHandler_OnChange ?hs ''foo/a'' NilObject
   = (None,
      [(1, NilObject),
       (2, Pointer \<lparr>GetNamespace = ''foo'', GetName = ''a'', GetUID = ''u1'',
                    GetResourceVersion = ''7'', Content = ''new''\<rparr>),
       (3, Pointer \<lparr>GetNamespace = ''foo'', GetName = ''a'', GetUID = ''u1'',
                    GetResourceVersion = ''7'', Content = ''new''\<rparr>)])"
    by (simp add: SharedHandler_OnChange_def append_handler_error_def)
  from SharedHandler_OnChange_threading [OF run] run show ?thesis by simp
qed

section \<open>Properties of the dispatch engine\<close>

lemma registry_calls_append [simp]: "registry_calls (xs @ ys) = registry_calls xs @ registry_calls ys"
  by (simp add: registry_calls_def)

lemma registry_calls_Cons:
  "registry_calls (e # es) = (if is_registry_call e then e # registry_calls es else registry_calls es)"
  by (simp add: registry_calls_def)

lemma registry_calls_Nil [simp]: "registry_calls [] = []"
  by (simp add: registry_calls_def)

lemma registry_calls_run_handlers:
  "run_handlers m req0 resp0 = (ev1, req, resp, err) \<Longrightarrow> registry_calls ev1 = []"
  by (auto simp: run_handlers_def registry_calls_Cons Let_def split: prod.splits)

lemma registry_calls_save_and_retry:
  "save_and_retry m gvk key u req resp = (ev3, obj, err) \<Longrightarrow> registry_calls ev3 = []"
  by (auto simp: save_and_retry_def registry_calls_Cons Let_def split: prod.splits option.splits if_splits)

lemma registry_calls_update_triggers:
  "registry_calls (update_triggers u req) = update_triggers u req"
  by (simp add: update_triggers_def registry_calls_Cons)

lemma FromTrigger_run_handlers:
  "run_handlers m req0 resp0 = (ev1, req, resp, err) \<Longrightarrow> FromTrigger req = FromTrigger req0"
  by (auto simp: run_handlers_def Let_def split: prod.splits)

lemma FromTrigger_newRequestResponse:
  "newRequestResponse gvk key u trigger = (req0, resp0) \<Longrightarrow> FromTrigger req0 = trigger"
  by (auto simp: newRequestResponse_def Let_def split: prod.splits)

lemma registry_calls_handle:
  "registry_calls (fst (handle m gvk key u trigger)) =
     (if handler_abort m gvk key u trigger \<noteq> None then []
      else update_triggers u (request_after_handlers m gvk key u trigger))"
proof -
  obtain req0 resp0 where n: "newRequestResponse gvk key u trigger = (req0, resp0)"
    by (cases "newRequestResponse gvk key u trigger")
  show ?thesis
  proof (cases "handlers_Handles m req0")
    case False
    with n show ?thesis
      by (simp add: handle_def handler_abort_def request_after_handlers_def
          registry_calls_Cons registry_calls_update_triggers)
  next
    case True
    obtain ev1 req resp err where r: "run_handlers m req0 resp0 = (ev1, req, resp, err)"
      by (cases "run_handlers m req0 resp0")
    obtain ev3 obj serr where s: "save_and_retry m gvk key u req resp = (ev3, obj, serr)"
      by (cases "save_and_retry m gvk key u req resp")
    show ?thesis
      using n True r s registry_calls_run_handlers [OF r] registry_calls_save_and_retry [OF s]
      by (cases err)
        (simp_all add: handle_def handler_abort_def request_after_handlers_def
          registry_calls_Cons registry_calls_update_triggers)
  qed
qed

lemma FromTrigger_request_after_handlers:
  "FromTrigger (request_after_handlers m gvk key u trigger) = trigger"
proof -
  obtain req0 resp0 where n: "newRequestResponse gvk key u trigger = (req0, resp0)"
    by (cases "newRequestResponse gvk key u trigger")
  obtain ev1 req resp err where r: "run_handlers m req0 resp0 = (ev1, req, resp, err)"
    by (cases "run_handlers m req0 resp0")
  show ?thesis
    using n r FromTrigger_run_handlers [OF r] FromTrigger_newRequestResponse [OF n]
    by (simp add: request_after_handlers_def)
qed

lemma decode_key_fromTrigger:
  "decode_key key0 = (fromTrigger, fromReplay, key) \<Longrightarrow> fromTrigger \<Longrightarrow>
   strings_HasPrefix key0 TriggerPrefix"
  by (auto simp: decode_key_def Let_def split: if_splits)

text \<open>
  Claim C1, as stated: for every dispatch handled by \<open>handle\<close>, a nil object leads
  to a call of \<open>UnregisterAndTrigger\<close>, and a non-nil object of a dispatch that is not
  trigger-driven to exactly one call of \<open>Trigger\<close>. Here the object is nil, the one
  handler returns an error and there is no error callback: \<open>handle\<close> returns that
  error right after the handler chain, and the trace ends with the handler run, with no
  call of the trigger registry.
\<close>

theorem handle_registry_calls_counterexample:
  "fst (handle
     \<lparr>scheme_New = (\<lambda>g. None),
       backend_Get = (\<lambda>g ns name. Inl (NotFound ''gone'')),
       backend_Trigger = (\<lambda>g k d. None),
       Reserve_Delay = (\<lambda>l. 0),
       handlers_Handles = (\<lambda>req. True),
       handlers_Handle = (\<lambda>req. (Some (Failure ''boom''), [], (\<lambda>ob. ob))),
       onError = None,
       save_save = (\<lambda>u req. (Object req, None))\<rparr>
     \<lparr>Group = ''example.io'', Version = ''v1'', Kind = ''Foo''\<rparr> ''foo/a'' None False)
   = [NewRequest \<lparr>FromTrigger = False,
         GVK = \<lparr>Group = ''example.io'', Version = ''v1'', Kind = ''Foo''\<rparr>,
         Object = None, Namespace = ''foo'', Name = ''a'', Key = ''foo/a''\<rparr>,
      Handle \<lparr>FromTrigger = False,
         GVK = \<lparr>Group = ''example.io'', Version = ''v1'', Kind = ''Foo''\<rparr>,
         Object = None, Namespace = ''foo'', Name = ''a'', Key = ''foo/a''\<rparr>]"
  by (simp add: handle_def newRequestResponse_def toObject_def run_handlers_def handleError_def
      strings_HasPrefix_def)

text \<open>
  Claim C1, amended. For every dispatch handled by \<open>handle\<close> that does not end in
  its first phase on a handler error (no handler is registered, or the chain returned no
  error, or the error callback turned the error into nil): if the object is nil,
  \<open>UnregisterAndTrigger\<close> is called, once, with the request, and \<open>Trigger\<close> is not
  called; if the object is not nil and the dispatch is not trigger-driven, \<open>Trigger\<close>
  is called exactly once with the request. For every dispatch, if the object is not nil
  and the request's \<open>FromTrigger\<close> flag is set, the trigger registry is not called at
  all. A dispatch that ends on a handler error does not call the trigger registry. The
  request's \<open>FromTrigger\<close> flag is the \<open>trigger\<close> argument, and \<open>onChange\<close>
  sets it only for keys that carry the \<open>_t \<close> prefix.
\<close>

theorem handle_registry_calls:
  "(u = None \<and> handler_abort m gvk key u trigger = None \<longrightarrow>
      registry_calls (fst (handle m gvk key u trigger))
        = [UnregisterAndTrigger (request_after_handlers m gvk key u trigger)])
   \<and> (u \<noteq> None \<and> trigger \<longrightarrow> registry_calls (fst (handle m gvk key u trigger)) = [])
   \<and> (u \<noteq> None \<and> \<not> trigger \<and> handler_abort m gvk key u trigger = None \<longrightarrow>
      registry_calls (fst (handle m gvk key u trigger))
        = [Trigger (request_after_handlers m gvk key u trigger)])
   \<and> (handler_abort m gvk key u trigger \<noteq> None \<longrightarrow>
      registry_calls (fst (handle m gvk key u trigger)) = [])
   \<and> FromTrigger (request_after_handlers m gvk key u trigger) = trigger
   \<and> (fst (decode_key key0) \<longrightarrow> strings_HasPrefix key0 TriggerPrefix)"
proof -
  have "fst (decode_key key0) \<longrightarrow> strings_HasPrefix key0 TriggerPrefix"
    using decode_key_fromTrigger [of key0] by (cases "decode_key key0") auto
  then show ?thesis
    by (auto simp: registry_calls_handle update_triggers_def FromTrigger_request_after_handlers)
qed

theorem handle_registry_calls_witness:
  "registry_calls (fst (handle
     \<lparr>scheme_New = (\<lambda>g. None),
       backend_Get = (\<lambda>g ns name. Inl (NotFound ''gone'')),
       backend_Trigger = (\<lambda>g k d. None),
       Reserve_Delay = (\<lambda>l. 0),
       handlers_Handles = (\<lambda>req. True),
       handlers_Handle = (\<lambda>req. (None, [], (\<lambda>ob. ob))),
       onError = None,
       save_save = (\<lambda>u req. (Object req, None))\<rparr>
     \<lparr>Group = ''example.io'', Version = ''v1'', Kind = ''Foo''\<rparr> ''foo/a'' None False))
   = [UnregisterAndTrigger \<lparr>FromTrigger = False,
         GVK = \<lparr>Group = ''example.io'', Version = ''v1'', Kind = ''Foo''\<rparr>,
         Object = None, Namespace = ''foo'', Name = ''a'', Key = ''foo/a''\<rparr>]
   \<and> registry_calls (fst (handle
     \<lparr>scheme_New = (\<lambda>g. None),
       backend_Get = (\<lambda>g ns name. Inl (NotFound ''gone'')),
       backend_Trigger = (\<lambda>g k d. None),
       Reserve_Delay = (\<lambda>l. 0),
       handlers_Handles = (\<lambda>req. True),
       handlers_Handle = (\<lambda>req. (None, [], (\<lambda>ob. ob))),
       onError = None,
       save_save = (\<lambda>u req. (Object req, None))\<rparr>
     \<lparr>Group = ''example.io'', Version = ''v1'', Kind = ''Foo''\<rparr> ''foo/a''
     (Some \<lparr>GetNamespace = ''foo'', GetName = ''a'', GetUID = ''u1'',
            GetResourceVersion = ''7'', Content = ''x''\<rparr>) True))
   = []
   \<and> registry_calls (fst (handle
     \<lparr>scheme_New = (\<lambda>g. None),
       backend_Get = (\<lambda>g ns name. Inl (NotFound ''gone'')),
       backend_Trigger = (\<lambda>g k d. None),
       Reserve_Delay = (\<lambda>l. 0),
       handlers_Handles = (\<lambda>req. True),
       handlers_Handle = (\<lambda>req. (None, [], (\<lambda>ob. ob))),
       onError = None,
       save_save = (\<lambda>u req. (Object req, None))\<rparr>
     \<lparr>Group = ''example.io'', Version = ''v1'', Kind = ''Foo''\<rparr> ''foo/a''
     (Some \<lparr>GetNamespace = ''foo'', GetName = ''a'', GetUID = ''u1'',
            GetResourceVersion = ''7'', Content = ''x''\<rparr>) False))
   = [Trigger \<lparr>FromTrigger = False,
         GVK = \<lparr>Group = ''example.io'', Version = ''v1'', Kind = ''Foo''\<rparr>,
         Object = Some \<lparr>GetNamespace = ''foo'', GetName = ''a'', GetUID = ''u1'',
            GetResourceVersion = ''7'', Content = ''x''\<rparr>,
         Namespace = ''foo'', Name = ''a'', Key = ''foo/a''\<rparr>]
   \<and> fst (decode_key ''_t foo/a'') \<and> strings_HasPrefix ''_t foo/a'' TriggerPrefix"
proof -
  let ?m = "\<lparr>scheme_New = (\<lambda>g. None),
       backend_Get = (\<lambda>g ns name. Inl (NotFound ''gone'')),
       backend_Trigger = (\<lambda>g k d. None),
       Reserve_Delay = (\<lambda>l. 0),
       handlers_Handles = (\<lambda>req. True),
       handlers_Handle = (\<lambda>req. (None, [], (\<lambda>ob. ob))),
       onError = None,
       save_save = (\<lambda>u req. (Object req, None))\<rparr>"
  let ?g = "\<lparr>Group = ''example.io'', Version = ''v1'', Kind = ''Foo''\<rparr>"
  let ?o = "Some \<lparr>GetNamespace = ''foo'', GetName = ''a'', GetUID = ''u1'',
            GetResourceVersion = ''7'', Content = ''x''\<rparr>"
  have ab: "handler_abort ?m ?g ''foo/a'' u t = None" for u t
    by (simp add: handler_abort_def newRequestResponse_def run_handlers_def split: prod.splits)
  have rq: "request_after_handlers ?m ?g ''foo/a'' u t
      = \<lparr>FromTrigger = t, GVK = ?g, Object = u, Namespace = ''foo'', Name = ''a'', Key = ''foo/a''\<rparr>" for u t
    by (cases u) (simp_all add: request_after_handlers_def newRequestResponse_def run_handlers_def
        toObject_def strings_HasPrefix_def)
  have dk: "fst (decode_key ''_t foo/a'')"
    by (simp add: decode_key_def TriggerPrefix_def ReplayPrefix_def strings_HasPrefix_def
        strings_TrimPrefix_def)
  show ?thesis
    using handle_registry_calls [of None ?m ?g "''foo/a''" False "''_t foo/a''"]
      handle_registry_calls [of ?o ?m ?g "''foo/a''" True "''_t foo/a''"]
      handle_registry_calls [of ?o ?m ?g "''foo/a''" False "''_t foo/a''"]
      ab rq dk
    by simp
qed











lemma NewRequest_handle:
  assumes "NewRequest req \<in> set (fst (handle m gvk key u trigger))"
  shows "req = fst (newRequestResponse gvk key u trigger)"
proof -
  obtain req0 resp0 where n: "newRequestResponse gvk key u trigger = (req0, resp0)"
    by (cases "newRequestResponse gvk key u trigger")
  obtain ev1 req1 resp err where r: "run_handlers m req0 resp0 = (ev1, req1, resp, err)"
    by (cases "run_handlers m req0 resp0")
  obtain ev3 obj serr where s: "save_and_retry m gvk key u req1 resp = (ev3, obj, serr)"
    by (cases "save_and_retry m gvk key u req1 resp")
  have e1: "ev1 = [Handle req0]"
    using r by (auto simp: run_handlers_def Let_def split: prod.splits)
  have e3: "NewRequest req \<notin> set ev3"
    using s by (auto simp: save_and_retry_def Let_def split: prod.splits option.splits if_splits)
  show ?thesis
    using assms n r s e1 e3
    by (cases "handlers_Handles m req0"; cases err)
      (auto simp: handle_def update_triggers_def split: if_splits)
qed

lemma newRequestResponse_fields:
  "Object (fst (newRequestResponse gvk key u trigger)) = u"
  "Namespace (fst (newRequestResponse gvk key u trigger))
     = (case strings_Cut key ''/'' of (ns, name, ok) \<Rightarrow> if \<not> ok then '''' else ns)"
  "Name (fst (newRequestResponse gvk key u trigger))
     = (case strings_Cut key ''/'' of (ns, name, ok) \<Rightarrow> if \<not> ok then key else name)"
  by (auto simp: newRequestResponse_def toObject_def Let_def split: prod.splits option.splits)

lemma NewRequest_checkDelay:
  "checkDelay m hs gvk key = (pass, hs1, ev0) \<Longrightarrow> NewRequest req \<notin> set ev0"
  by (auto simp: checkDelay_def Let_def split: if_splits option.splits prod.splits)

lemma onChange_request:
  assumes "NewRequest req \<in> set (fst (snd (onChange m hs gvk key0 runtimeObject)))"
  shows "(case backend_Get m gvk (Namespace req) (Name req) of
            Inr obj \<Rightarrow> Object req = Some obj
          | Inl err \<Rightarrow> IsNotFound err \<and> Object req = runtimeObject)"
proof -
  obtain fromTrigger fromReplay key where d: "decode_key key0 = (fromTrigger, fromReplay, key)"
    by (cases "decode_key key0")
  obtain pass hs1 ev0 where g:
    "(if \<not> fromReplay \<and> \<not> fromTrigger then checkDelay m hs gvk key else (True, hs, []))
       = (pass, hs1, ev0)"
    by (cases "if \<not> fromReplay \<and> \<not> fromTrigger then checkDelay m hs gvk key else (True, hs, [])")
  have nr0: "NewRequest req \<notin> set ev0"
    using g NewRequest_checkDelay [of m hs gvk key pass hs1 ev0] by (auto split: if_splits)
  obtain ns0 name0 ok where c: "strings_Cut key ''/'' = (ns0, name0, ok)"
    by (cases "strings_Cut key ''/''")
  let ?ns = "if \<not> ok then '''' else ns0" and ?name = "if \<not> ok then key else name0"
  have fields: "Namespace (fst (newRequestResponse gvk key u fromTrigger)) = ?ns"
    "Name (fst (newRequestResponse gvk key u fromTrigger)) = ?name"
    "Object (fst (newRequestResponse gvk key u fromTrigger)) = u" for u
    using c by (simp_all add: newRequestResponse_fields)
  show ?thesis
  proof (cases "backend_Get m gvk ?ns ?name")
    case (Inr obj)
    obtain ev2 o2 e2 where h: "handle m gvk key (Some obj) fromTrigger = (ev2, o2, e2)"
      by (cases "handle m gvk key (Some obj) fromTrigger")
    have "NewRequest req \<in> set ev2"
      using assms d g c Inr h nr0
      by (auto simp: onChange_def Let_def split: if_splits option.splits)
    then have "req = fst (newRequestResponse gvk key (Some obj) fromTrigger)"
      using NewRequest_handle [of req m gvk key "Some obj" fromTrigger] h by simp
    then show ?thesis using Inr fields by simp
  next
    case (Inl err)
    obtain ev2 o2 e2 where h: "handle m gvk key runtimeObject fromTrigger = (ev2, o2, e2)"
      by (cases "handle m gvk key runtimeObject fromTrigger")
    have "IsNotFound err \<and> NewRequest req \<in> set ev2"
      using assms d g c Inl h nr0
      by (auto simp: onChange_def Let_def split: if_splits option.splits)
    then have "IsNotFound err" "req = fst (newRequestResponse gvk key runtimeObject fromTrigger)"
      using NewRequest_handle [of req m gvk key runtimeObject fromTrigger] h by simp_all
    then show ?thesis using Inl fields by simp
  qed
qed

text \<open>
  Claim C6, as stated: the \<open>Object\<close> of the request that \<open>onChange\<close> builds is nil
  if and only if the fresh backend \<open>Get\<close> reports not-found, whatever object the
  incoming event carried. Here the backend reports not-found and the event carries an
  object: the request is built around the event's object, not around nil.
\<close>

theorem onChange_request_object_counterexample:
  "fst (snd (onChange
     \<lparr>scheme_New = (\<lambda>g. None),
       backend_Get = (\<lambda>g ns name. Inl (NotFound ''gone'')),
       backend_Trigger = (\<lambda>g k d. None),
       Reserve_Delay = (\<lambda>l. 0),
       handlers_Handles = (\<lambda>req. False),
       handlers_Handle = (\<lambda>req. (None, [], (\<lambda>ob. ob))),
       onError = None,
       save_save = (\<lambda>u req. (Object req, None))\<rparr>
     \<lparr>limiters = Map.empty, waiting = {}\<rparr>
     \<lparr>Group = ''example.io'', Version = ''v1'', Kind = ''Foo''\<rparr> ''foo/a''
     (Some \<lparr>GetNamespace = ''foo'', GetName = ''a'', GetUID = ''u1'',
            GetResourceVersion = ''7'', Content = ''x''\<rparr>)))
   = [CheckDelay (''foo/a'', \<lparr>Group = ''example.io'', Version = ''v1'', Kind = ''Foo''\<rparr>),
      Reserve (''foo/a'', \<lparr>Group = ''example.io'', Version = ''v1'', Kind = ''Foo''\<rparr>),
      SchemeNew \<lparr>Group = ''example.io'', Version = ''v1'', Kind = ''Foo''\<rparr>,
      Lock ''Foo foo/a'',
      BackendGet \<lparr>Group = ''example.io'', Version = ''v1'', Kind = ''Foo''\<rparr> ''foo'' ''a'',
      NewRequest \<lparr>FromTrigger = False,
         GVK = \<lparr>Group = ''example.io'', Version = ''v1'', Kind = ''Foo''\<rparr>,
         Object = Some \<lparr>GetNamespace = ''foo'', GetName = ''a'', GetUID = ''u1'',
            GetResourceVersion = ''7'', Content = ''x''\<rparr>,
         Namespace = ''foo'', Name = ''a'', Key = ''foo/a''\<rparr>,
      Trigger \<lparr>FromTrigger = False,
         GVK = \<lparr>Group = ''example.io'', Version = ''v1'', Kind = ''Foo''\<rparr>,
         Object = Some \<lparr>GetNamespace = ''foo'', GetName = ''a'', GetUID = ''u1'',
            GetResourceVersion = ''7'', Content = ''x''\<rparr>,
         Namespace = ''foo'', Name = ''a'', Key = ''foo/a''\<rparr>,
      Unlock ''Foo foo/a'']"
  by (simp add: onChange_def decode_key_def TriggerPrefix_def ReplayPrefix_def
      strings_HasPrefix_def strings_TrimPrefix_def checkDelay_def rate_NewLimiter_def
      handle_def newRequestResponse_def toObject_def update_triggers_def handleError_def
      forgetBackoff_def Let_def)

text \<open>
  Claim C6, amended. For every dispatch through \<open>onChange\<close> that builds a request:
  the request's \<open>Object\<close> is nil if and only if the fresh backend \<open>Get\<close> reports
  not-found and the incoming event carried no object. When the \<open>Get\<close> succeeds the
  request's \<open>Object\<close> is the fresh copy; when it reports not-found it is the object of
  the incoming event; after any other error of the \<open>Get\<close> no request is built.
\<close>

theorem onChange_request_object:
  assumes "NewRequest req \<in> set (fst (snd (onChange m hs gvk key0 runtimeObject)))"
  shows "(Object req = None \<longleftrightarrow>
            (\<exists>err. backend_Get m gvk (Namespace req) (Name req) = Inl err \<and> IsNotFound err)
            \<and> runtimeObject = None)
       \<and> (\<forall>obj. backend_Get m gvk (Namespace req) (Name req) = Inr obj \<longrightarrow> Object req = Some obj)
       \<and> (\<forall>err. backend_Get m gvk (Namespace req) (Name req) = Inl err \<longrightarrow>
             IsNotFound err \<and> Object req = runtimeObject)"
  using onChange_request [OF assms]
  by (cases "backend_Get m gvk (Namespace req) (Name req)") auto

theorem onChange_request_object_witness:
  "NewRequest \<lparr>FromTrigger = True,
         GVK = \<lparr>Group = ''example.io'', Version = ''v1'', Kind = ''Foo''\<rparr>,
         Object = None, Namespace = ''foo'', Name = ''a'', Key = ''foo/a''\<rparr>
     \<in> set (fst (snd (onChange
          \<lparr>scheme_New = (\<lambda>g. None),
            backend_Get = (\<lambda>g ns name. Inl (NotFound ''gone'')),
            backend_Trigger = (\<lambda>g k d. None),
            Reserve_Delay = (\<lambda>l. 0),
            handlers_Handles = (\<lambda>req. False),
            handlers_Handle = (\<lambda>req. (None, [], (\<lambda>ob. ob))),
            onError = None,
            save_save = (\<lambda>u req. (Object req, None))\<rparr>
          \<lparr>limiters = Map.empty, waiting = {}\<rparr>
          \<lparr>Group = ''example.io'', Version = ''v1'', Kind = ''Foo''\<rparr> ''_t foo/a'' None)))
   \<and> (\<exists>err. backend_Get
          \<lparr>scheme_New = (\<lambda>g. None),
            backend_Get = (\<lambda>g ns name. Inl (NotFound ''gone'')),
            backend_Trigger = (\<lambda>g k d. None),
            Reserve_Delay = (\<lambda>l. 0),
            handlers_Handles = (\<lambda>req. False),
            handlers_Handle = (\<lambda>req. (None, [], (\<lambda>ob. ob))),
            onError = None,
            save_save = (\<lambda>u req. (Object req, None))\<rparr>
          \<lparr>Group = ''example.io'', Version = ''v1'', Kind = ''Foo''\<rparr> ''foo'' ''a'' = Inl err
        \<and> IsNotFound err)"
proof -
  let ?m = "\<lparr>scheme_New = (\<lambda>g. None),
            backend_Get = (\<lambda>g ns name. Inl (NotFound ''gone'')),
            backend_Trigger = (\<lambda>g k d. None),
            Reserve_Delay = (\<lambda>l. 0),
            handlers_Handles = (\<lambda>req. False),
            handlers_Handle = (\<lambda>req. (None, [], (\<lambda>ob. ob))),
            onError = None,
            save_save = (\<lambda>u req. (Object req, None))\<rparr>"
  let ?g = "\<lparr>Group = ''example.io'', Version = ''v1'', Kind = ''Foo''\<rparr>"
  let ?req = "\<lparr>FromTrigger = True, GVK = ?g, Object = None, Namespace = ''foo'',
                 Name = ''a'', Key = ''foo/a''\<rparr>"
  have run: "NewRequest ?req
      \<in> set (fst (snd (onChange ?m \<lparr>limiters = Map.empty, waiting = {}\<rparr> ?g ''_t foo/a'' None)))"
    by (simp add: onChange_def decode_key_def TriggerPrefix_def ReplayPrefix_def
      strings_HasPrefix_def strings_TrimPrefix_def checkDelay_def rate_NewLimiter_def
      handle_def newRequestResponse_def toObject_def update_triggers_def handleError_def
      forgetBackoff_def Let_def)
  from onChange_request_object [OF run] run show ?thesis by simp
qed

lemma decode_key_gate:
  "(case decode_key key0 of (fromTrigger, fromReplay, key) \<Rightarrow> \<not> fromReplay \<and> \<not> fromTrigger)
     \<longleftrightarrow> \<not> strings_HasPrefix key0 TriggerPrefix \<and> \<not> strings_HasPrefix key0 ReplayPrefix"
  by (auto simp: decode_key_def Let_def)

lemma decode_key_plain:
  "\<not> strings_HasPrefix key0 TriggerPrefix \<Longrightarrow> \<not> strings_HasPrefix key0 ReplayPrefix \<Longrightarrow>
   decode_key key0 = (False, False, key0)"
  by (simp add: decode_key_def Let_def)

lemma CheckDelay_handle: "CheckDelay lKey \<notin> set (fst (handle m gvk key u trigger))"
proof -
  obtain req0 resp0 where n: "newRequestResponse gvk key u trigger = (req0, resp0)"
    by (cases "newRequestResponse gvk key u trigger")
  obtain ev1 req1 resp err where r: "run_handlers m req0 resp0 = (ev1, req1, resp, err)"
    by (cases "run_handlers m req0 resp0")
  obtain ev3 obj serr where s: "save_and_retry m gvk key u req1 resp = (ev3, obj, serr)"
    by (cases "save_and_retry m gvk key u req1 resp")
  have e1: "ev1 = [Handle req0]"
    using r by (auto simp: run_handlers_def Let_def split: prod.splits)
  have e3: "CheckDelay lKey \<notin> set ev3"
    using s by (auto simp: save_and_retry_def Let_def split: prod.splits option.splits if_splits)
  show ?thesis
    using n r s e1 e3
    by (cases "handlers_Handles m req0"; cases err)
      (auto simp: handle_def update_triggers_def split: if_splits)
qed

lemma CheckDelay_checkDelay:
  "CheckDelay lKey \<in> set (snd (snd (checkDelay m hs gvk key))) \<longleftrightarrow> lKey = (key, gvk)"
  by (auto simp: checkDelay_def Let_def split: option.splits)

lemma onChange_gate_calls:
  "(\<exists>lKey. CheckDelay lKey \<in> set (fst (snd (onChange m hs gvk key0 runtimeObject))))
     \<longleftrightarrow> \<not> strings_HasPrefix key0 TriggerPrefix \<and> \<not> strings_HasPrefix key0 ReplayPrefix"
proof -
  obtain fromTrigger fromReplay key where d: "decode_key key0 = (fromTrigger, fromReplay, key)"
    by (cases "decode_key key0")
  have gate: "(\<not> fromReplay \<and> \<not> fromTrigger)
      \<longleftrightarrow> \<not> strings_HasPrefix key0 TriggerPrefix \<and> \<not> strings_HasPrefix key0 ReplayPrefix"
    using decode_key_gate [of key0] d by simp
  obtain pass hs1 ev0 where g:
    "(if \<not> fromReplay \<and> \<not> fromTrigger then checkDelay m hs gvk key else (True, hs, []))
       = (pass, hs1, ev0)"
    by (cases "if \<not> fromReplay \<and> \<not> fromTrigger then checkDelay m hs gvk key else (True, hs, [])")
  have ev0: "(\<exists>lKey. CheckDelay lKey \<in> set ev0) \<longleftrightarrow> (\<not> fromReplay \<and> \<not> fromTrigger)"
    using g CheckDelay_checkDelay [of _ m hs gvk key] by (auto split: if_splits)
  have h: "CheckDelay lKey \<notin> set ev" if "handle m gvk key u t = (ev, ob, e)"
    for lKey u t ev ob e
    using CheckDelay_handle [of lKey m gvk key u t] that by simp
  have rest: "(\<exists>lKey. CheckDelay lKey \<in> set (fst (snd (onChange m hs gvk key0 runtimeObject))))
      \<longleftrightarrow> (\<exists>lKey. CheckDelay lKey \<in> set ev0)"
    using d g
    by (auto simp: onChange_def Let_def dest: h split: if_splits option.splits prod.splits sum.splits)
  show ?thesis using rest ev0 gate by simp
qed

lemma checkDelay_waiting:
  "(key, gvk) \<in> waiting hs \<Longrightarrow> checkDelay m hs gvk key = (False, hs, [CheckDelay (key, gvk)])"
  by (simp add: checkDelay_def)

lemma checkDelay_not_waiting:
  assumes "(key, gvk) \<notin> waiting hs"
  shows "checkDelay m hs gvk key =
     (let limit = (case limiters hs (key, gvk) of
                     Some l \<Rightarrow> l
                   | None \<Rightarrow> Limiter (1 / 5) 10);
          hs1 = hs\<lparr>limiters := (limiters hs)((key, gvk) \<mapsto> limit)\<rparr>
      in if 0 < Reserve_Delay m limit
         then (False, hs1\<lparr>waiting := insert (key, gvk) (waiting hs)\<rparr>,
               [CheckDelay (key, gvk), Reserve (key, gvk),
                GoBackoff gvk key (Reserve_Delay m limit)])
         else (True, hs1, [CheckDelay (key, gvk), Reserve (key, gvk)]))"
proof (cases "limiters hs (key, gvk)")
  case None
  with assms show ?thesis
    by (simp add: checkDelay_def Let_def rate_NewLimiter_def)
next
  case (Some l)
  then have "(limiters hs)((key, gvk) \<mapsto> l) = limiters hs"
    by (simp add: map_upd_triv)
  with assms Some show ?thesis
    by (simp add: checkDelay_def Let_def)
qed

lemma onChange_gate_closed:
  assumes "\<not> strings_HasPrefix key0 TriggerPrefix" "\<not> strings_HasPrefix key0 ReplayPrefix"
    and "checkDelay m hs gvk key0 = (False, hs1, ev0)"
  shows "onChange m hs gvk key0 runtimeObject = (hs1, ev0, runtimeObject, None)"
  using assms by (simp add: onChange_def decode_key_plain)

text \<open>
  Claim C2. \<open>onChange\<close> consults the rate-limit gate \<open>checkDelay\<close> exactly when the
  key bears neither the \<open>_t \<close> nor the \<open>_r \<close> prefix. The gate keeps one token
  bucket per \<open>(gvk, key)\<close>, made with refill rate one fifth of a token per second
  and burst ten when the key has none yet. If the key is in the waiting set, the gate
  returns false and does nothing else: no token is reserved and no goroutine started.
  Otherwise it reserves a token; if the delay is positive it adds the key to the waiting
  set, starts a single goroutine and returns false; the goroutine, after its sleep,
  removes the key from the waiting set and calls \<open>Backend.Trigger\<close> with the key
  behind the \<open>_r \<close> prefix and delay zero. When the gate returns false, \<open>onChange\<close>
  returns the incoming object and a nil error, and neither builds a request nor runs
  handlers.
\<close>

theorem onChange_checkDelay_gate:
  "((\<exists>lKey. CheckDelay lKey \<in> set (fst (snd (onChange m hs gvk key0 runtimeObject))))
      \<longleftrightarrow> \<not> strings_HasPrefix key0 ''_t '' \<and> \<not> strings_HasPrefix key0 ''_r '')
   \<and> ((key, gvk) \<in> waiting hs \<longrightarrow>
        checkDelay m hs gvk key = (False, hs, [CheckDelay (key, gvk)]))
   \<and> ((key, gvk) \<notin> waiting hs \<longrightarrow>
        checkDelay m hs gvk key =
          (let limit = (case limiters hs (key, gvk) of
                          Some l \<Rightarrow> l
                        | None \<Rightarrow> Limiter (1 / 5) 10);
               hs1 = hs\<lparr>limiters := (limiters hs)((key, gvk) \<mapsto> limit)\<rparr>
           in if 0 < Reserve_Delay m limit
              then (False, hs1\<lparr>waiting := insert (key, gvk) (waiting hs)\<rparr>,
                    [CheckDelay (key, gvk), Reserve (key, gvk),
                     GoBackoff gvk key (Reserve_Delay m limit)])
              else (True, hs1, [CheckDelay (key, gvk), Reserve (key, gvk)])))
   \<and> backoff hs gvk key
        = (hs\<lparr>waiting := waiting hs - {(key, gvk)}\<rparr>, [BackendTrigger gvk (''_r '' @ key) 0])
   \<and> (\<not> strings_HasPrefix key0 ''_t '' \<and> \<not> strings_HasPrefix key0 ''_r ''
        \<and> fst (checkDelay m hs gvk key0) = False \<longrightarrow>
        onChange m hs gvk key0 runtimeObject
          = (fst (snd (checkDelay m hs gvk key0)), snd (snd (checkDelay m hs gvk key0)),
             runtimeObject, None)
        \<and> (\<forall>req. Handle req \<notin> set (fst (snd (onChange m hs gvk key0 runtimeObject))))
        \<and> (\<forall>req. NewRequest req \<notin> set (fst (snd (onChange m hs gvk key0 runtimeObject)))))"
proof -
  have closed: "onChange m hs gvk key0 runtimeObject
          = (fst (snd (checkDelay m hs gvk key0)), snd (snd (checkDelay m hs gvk key0)),
             runtimeObject, None)
        \<and> (\<forall>req. Handle req \<notin> set (fst (snd (onChange m hs gvk key0 runtimeObject))))
        \<and> (\<forall>req. NewRequest req \<notin> set (fst (snd (onChange m hs gvk key0 runtimeObject))))"
    if np: "\<not> strings_HasPrefix key0 TriggerPrefix" "\<not> strings_HasPrefix key0 ReplayPrefix"
      and f: "fst (checkDelay m hs gvk key0) = False"
  proof -
    obtain hs1 ev0 where c: "checkDelay m hs gvk key0 = (False, hs1, ev0)"
      using f by (cases "checkDelay m hs gvk key0") auto
    have evs: "Handle req \<notin> set ev0" "NewRequest req \<notin> set ev0" for req
      using c by (auto simp: checkDelay_def Let_def split: if_splits option.splits)
    show ?thesis
      using onChange_gate_closed [OF np c, of runtimeObject] c evs by simp
  qed
  then have closed': "\<not> strings_HasPrefix key0 ''_t '' \<and> \<not> strings_HasPrefix key0 ''_r ''
        \<and> fst (checkDelay m hs gvk key0) = False \<longrightarrow>
        onChange m hs gvk key0 runtimeObject
          = (fst (snd (checkDelay m hs gvk key0)), snd (snd (checkDelay m hs gvk key0)),
             runtimeObject, None)
        \<and> (\<forall>req. Handle req \<notin> set (fst (snd (onChange m hs gvk key0 runtimeObject))))
        \<and> (\<forall>req. NewRequest req \<notin> set (fst (snd (onChange m hs gvk key0 runtimeObject))))"
    by (simp only: TriggerPrefix_def ReplayPrefix_def) blast
  have gate: "(\<exists>lKey. CheckDelay lKey \<in> set (fst (snd (onChange m hs gvk key0 runtimeObject))))
      \<longleftrightarrow> \<not> strings_HasPrefix key0 ''_t '' \<and> \<not> strings_HasPrefix key0 ''_r ''"
    using onChange_gate_calls [of m hs gvk key0 runtimeObject]
    by (simp only: TriggerPrefix_def ReplayPrefix_def)
  have b: "backoff hs gvk key
        = (hs\<lparr>waiting := waiting hs - {(key, gvk)}\<rparr>, [BackendTrigger gvk (''_r '' @ key) 0])"
    by (simp add: backoff_def ReplayPrefix_def)
  show ?thesis
    using gate checkDelay_waiting [of key gvk hs m] checkDelay_not_waiting [of key gvk hs m]
      b closed'
    by blast
qed

theorem onChange_checkDelay_gate_witness:
  "checkDelay
     \<lparr>scheme_New = (\<lambda>g. None),
       backend_Get = (\<lambda>g ns name. Inl (NotFound ''gone'')),
       backend_Trigger = (\<lambda>g k d. None),
       Reserve_Delay = (\<lambda>l. 3000000000),
       handlers_Handles = (\<lambda>req. True),
       handlers_Handle = (\<lambda>req. (None, [], (\<lambda>ob. ob))),
       onError = None,
       save_save = (\<lambda>u req. (Object req, None))\<rparr>
     \<lparr>limiters = Map.empty, waiting = {}\<rparr>
     \<lparr>Group = ''example.io'', Version = ''v1'', Kind = ''Foo''\<rparr> ''foo/a''
   = (False,
      \<lparr>limiters = [(''foo/a'', \<lparr>Group = ''example.io'', Version = ''v1'', Kind = ''Foo''\<rparr>)
                     \<mapsto> Limiter (1 / 5) 10],
        waiting = {(''foo/a'', \<lparr>Group = ''example.io'', Version = ''v1'', Kind = ''Foo''\<rparr>)}\<rparr>,
      [CheckDelay (''foo/a'', \<lparr>Group = ''example.io'', Version = ''v1'', Kind = ''Foo''\<rparr>),
       Reserve (''foo/a'', \<lparr>Group = ''example.io'', Version = ''v1'', Kind = ''Foo''\<rparr>),
       GoBackoff \<lparr>Group = ''example.io'', Version = ''v1'', Kind = ''Foo''\<rparr> ''foo/a'' 3000000000])
   \<and> onChange
     \<lparr>scheme_New = (\<lambda>g. None),
       backend_Get = (\<lambda>g ns name. Inl (NotFound ''gone'')),
       backend_Trigger = (\<lambda>g k d. None),
       Reserve_Delay = (\<lambda>l. 3000000000),
       handlers_Handles = (\<lambda>req. True),
       handlers_Handle = (\<lambda>req. (None, [], (\<lambda>ob. ob))),
       onError = None,
       save_save = (\<lambda>u req. (Object req, None))\<rparr>
     \<lparr>limiters = Map.empty, waiting = {}\<rparr>
     \<lparr>Group = ''example.io'', Version = ''v1'', Kind = ''Foo''\<rparr> ''foo/a''
     (Some \<lparr>GetNamespace = ''foo'', GetName = ''a'', GetUID = ''u1'',
            GetResourceVersion = ''7'', Content = ''x''\<rparr>)
   = (\<lparr>limiters = [(''foo/a'', \<lparr>Group = ''example.io'', Version = ''v1'', Kind = ''Foo''\<rparr>)
                     \<mapsto> Limiter (1 / 5) 10],
        waiting = {(''foo/a'', \<lparr>Group = ''example.io'', Version = ''v1'', Kind = ''Foo''\<rparr>)}\<rparr>,
      [CheckDelay (''foo/a'', \<lparr>Group = ''example.io'', Version = ''v1'', Kind = ''Foo''\<rparr>),
       Reserve (''foo/a'', \<lparr>Group = ''example.io'', Version = ''v1'', Kind = ''Foo''\<rparr>),
       GoBackoff \<lparr>Group = ''example.io'', Version = ''v1'', Kind = ''Foo''\<rparr> ''foo/a'' 3000000000],
      Some \<lparr>GetNamespace = ''foo'', GetName = ''a'', GetUID = ''u1'',
            GetResourceVersion = ''7'', Content = ''x''\<rparr>,
      None)
   \<and> \<not> strings_HasPrefix ''foo/a'' ''_t '' \<and> \<not> strings_HasPrefix ''foo/a'' ''_r ''
   \<and> backoff
        \<lparr>limiters = Map.empty,
          waiting = {(''foo/a'', \<lparr>Group = ''example.io'', Version = ''v1'', Kind = ''Foo''\<rparr>)}\<rparr>
        \<lparr>Group = ''example.io'', Version = ''v1'', Kind = ''Foo''\<rparr> ''foo/a''
      = (\<lparr>limiters = Map.empty, waiting = {}\<rparr>,
         [BackendTrigger \<lparr>Group = ''example.io'', Version = ''v1'', Kind = ''Foo''\<rparr>
            ''_r foo/a'' 0])"
proof -
  let ?m = "\<lparr>scheme_New = (\<lambda>g. None),
       backend_Get = (\<lambda>g ns name. Inl (NotFound ''gone'')),
       backend_Trigger = (\<lambda>g k d. None),
       Reserve_Delay = (\<lambda>l. 3000000000),
       handlers_Handles = (\<lambda>req. True),
       handlers_Handle = (\<lambda>req. (None, [], (\<lambda>ob. ob))),
       onError = None,
       save_save = (\<lambda>u req. (Object req, None))\<rparr>"
  let ?g = "\<lparr>Group = ''example.io'', Version = ''v1'', Kind = ''Foo''\<rparr>"
  let ?o = "Some \<lparr>GetNamespace = ''foo'', GetName = ''a'', GetUID = ''u1'',
            GetResourceVersion = ''7'', Content = ''x''\<rparr>"
  have np: "\<not> strings_HasPrefix ''foo/a'' ''_t ''" "\<not> strings_HasPrefix ''foo/a'' ''_r ''"
    by (simp_all add: strings_HasPrefix_def)
  have nw: "(''foo/a'', ?g) \<notin> waiting \<lparr>limiters = Map.empty, waiting = {}\<rparr>"
    by simp
  have w: "(''foo/a'', ?g) \<in> waiting \<lparr>limiters = Map.empty, waiting = {(''foo/a'', ?g)}\<rparr>"
    by simp
  show ?thesis
    using onChange_checkDelay_gate [of ?m "\<lparr>limiters = Map.empty, waiting = {}\<rparr>" ?g "''foo/a''" ?o "''foo/a''"]
      onChange_checkDelay_gate [of ?m "\<lparr>limiters = Map.empty, waiting = {(''foo/a'', ?g)}\<rparr>" ?g "''foo/a''" ?o "''foo/a''"]
      np nw w
    by (simp add: Let_def)
qed

section \<open>Properties of the cache client\<close>

lemma cacheClient_Get_direct:
  assumes "cached_Get cl key ob = (getErr, obj)"
    and "GVKForObject cl obj = Inr gvk"
  shows "(\<forall>e v. getErr = Some e \<and> IsNotFound e
            \<and> recent c (gvk, GetNamespace obj, GetName obj) = Some v \<longrightarrow>
            cacheClient_Get cl c key (Direct ob) = (None, StoredObject v))
       \<and> (\<forall>e. getErr = Some e \<and> IsNotFound e
            \<and> recent c (gvk, GetNamespace obj, GetName obj) = None \<longrightarrow>
            cacheClient_Get cl c key (Direct ob) = (Some e, obj))
       \<and> (\<forall>v. getErr = None \<and> recent c (gvk, GetNamespace obj, GetName obj) = Some v
            \<and> newer (GetResourceVersion obj) (GetResourceVersion (StoredObject v)) \<longrightarrow>
            cacheClient_Get cl c key (Direct ob) = (None, StoredObject v))
       \<and> (\<forall>v. getErr = None \<and> recent c (gvk, GetNamespace obj, GetName obj) = Some v
            \<and> \<not> newer (GetResourceVersion obj) (GetResourceVersion (StoredObject v)) \<longrightarrow>
            cacheClient_Get cl c key (Direct ob) = (None, obj))
       \<and> (getErr = None \<and> recent c (gvk, GetNamespace obj, GetName obj) = None \<longrightarrow>
            cacheClient_Get cl c key (Direct ob) = (None, obj))"
  using assms by (simp add: cacheClient_Get_def CopyInto_def)

text \<open>
  Claim C3 says that a \<open>Get\<close> whose store read reports not-found returns the copy
  that the recent map holds for the same kind, namespace and name, with a nil error, so
  that a \<open>Get\<close> right after a successful \<open>Create\<close> returns the stored object even
  if the informer has not observed it. \<open>Get\<close> looks the recent map up under the
  namespace and name of its target object, not those of the key it was given. Below, a
  \<open>Create\<close> of \<open>foo/b\<close> succeeds and stores its copy, and the informer store still
  reports not-found, leaving the target as it is. The \<open>Get\<close> for the key \<open>foo/b\<close>
  into a blank target returns the not-found error and leaves the target blank; only a
  target that already carries the namespace and the name gets the stored object.
\<close>

theorem cacheClient_Get_after_Create_blank_target:
  "fst (snd (cacheClient_Create
     \<lparr>uncached_Get = (\<lambda>key ob. (Some (NotFound ''bars not found''), ob)),
       cached_Get = (\<lambda>key ob. (Some (NotFound ''bars not found''), ob)),
       uncached_Create = (\<lambda>ob. (None, ob\<lparr>GetUID := ''u1'', GetResourceVersion := ''1''\<rparr>)),
       cached_Create = (\<lambda>ob. (None, ob\<lparr>GetUID := ''u1'', GetResourceVersion := ''1''\<rparr>)),
       GVKForObject = (\<lambda>ob. Inr \<lparr>Group = ''example.io'', Version = ''v1'', Kind = ''Bar''\<rparr>)\<rparr>
     \<lparr>recent = Map.empty\<rparr> 100
     (Direct \<lparr>GetNamespace = ''foo'', GetName = ''b'', GetUID = '''',
              GetResourceVersion = '''', Content = ''spec''\<rparr>)))
   = None
   \<and> recent (fst (cacheClient_Create
     \<lparr>uncached_Get = (\<lambda>key ob. (Some (NotFound ''bars not found''), ob)),
       cached_Get = (\<lambda>key ob. (Some (NotFound ''bars not found''), ob)),
       uncached_Create = (\<lambda>ob. (None, ob\<lparr>GetUID := ''u1'', GetResourceVersion := ''1''\<rparr>)),
       cached_Create = (\<lambda>ob. (None, ob\<lparr>GetUID := ''u1'', GetResourceVersion := ''1''\<rparr>)),
       GVKForObject = (\<lambda>ob. Inr \<lparr>Group = ''example.io'', Version = ''v1'', Kind = ''Bar''\<rparr>)\<rparr>
     \<lparr>recent = Map.empty\<rparr> 100
     (Direct \<lparr>GetNamespace = ''foo'', GetName = ''b'', GetUID = '''',
              GetResourceVersion = '''', Content = ''spec''\<rparr>)))
     (\<lparr>Group = ''example.io'', Version = ''v1'', Kind = ''Bar''\<rparr>, ''foo'', ''b'')
   = Some \<lparr>StoredObject = \<lparr>GetNamespace = ''foo'', GetName = ''b'', GetUID = ''u1'',
              GetResourceVersion = ''1'', Content = ''spec''\<rparr>, Inserted = 100\<rparr>
   \<and> cacheClient_Get
     \<lparr>uncached_Get = (\<lambda>key ob. (Some (NotFound ''bars not found''), ob)),
       cached_Get = (\<lambda>key ob. (Some (NotFound ''bars not found''), ob)),
       uncached_Create = (\<lambda>ob. (None, ob\<lparr>GetUID := ''u1'', GetResourceVersion := ''1''\<rparr>)),
       cached_Create = (\<lambda>ob. (None, ob\<lparr>GetUID := ''u1'', GetResourceVersion := ''1''\<rparr>)),
       GVKForObject = (\<lambda>ob. Inr \<lparr>Group = ''example.io'', Version = ''v1'', Kind = ''Bar''\<rparr>)\<rparr>
     (fst (cacheClient_Create
       \<lparr>uncached_Get = (\<lambda>key ob. (Some (NotFound ''bars not found''), ob)),
         cached_Get = (\<lambda>key ob. (Some (NotFound ''bars not found''), ob)),
         uncached_Create = (\<lambda>ob. (None, ob\<lparr>GetUID := ''u1'', GetResourceVersion := ''1''\<rparr>)),
         cached_Create = (\<lambda>ob. (None, ob\<lparr>GetUID := ''u1'', GetResourceVersion := ''1''\<rparr>)),
         GVKForObject = (\<lambda>ob. Inr \<lparr>Group = ''example.io'', Version = ''v1'', Kind = ''Bar''\<rparr>)\<rparr>
       \<lparr>recent = Map.empty\<rparr> 100
       (Direct \<lparr>GetNamespace = ''foo'', GetName = ''b'', GetUID = '''',
                GetResourceVersion = '''', Content = ''spec''\<rparr>)))
     (''foo'', ''b'')
     (Direct \<lparr>GetNamespace = '''', GetName = '''', GetUID = '''',
              GetResourceVersion = '''', Content = ''''\<rparr>)
   = (Some (NotFound ''bars not found''),
      \<lparr>GetNamespace = '''', GetName = '''', GetUID = '''',
        GetResourceVersion = '''', Content = ''''\<rparr>)
   \<and> cacheClient_Get
     \<lparr>uncached_Get = (\<lambda>key ob. (Some (NotFound ''bars not found''), ob)),
       cached_Get = (\<lambda>key ob. (Some (NotFound ''bars not found''), ob)),
       uncached_Create = (\<lambda>ob. (None, ob\<lparr>GetUID := ''u1'', GetResourceVersion := ''1''\<rparr>)),
       cached_Create = (\<lambda>ob. (None, ob\<lparr>GetUID := ''u1'', GetResourceVersion := ''1''\<rparr>)),
       GVKForObject = (\<lambda>ob. Inr \<lparr>Group = ''example.io'', Version = ''v1'', Kind = ''Bar''\<rparr>)\<rparr>
     (fst (cacheClient_Create
       \<lparr>uncached_Get = (\<lambda>key ob. (Some (NotFound ''bars not found''), ob)),
         cached_Get = (\<lambda>key ob. (Some (NotFound ''bars not found''), ob)),
         uncached_Create = (\<lambda>ob. (None, ob\<lparr>GetUID := ''u1'', GetResourceVersion := ''1''\<rparr>)),
         cached_Create = (\<lambda>ob. (None, ob\<lparr>GetUID := ''u1'', GetResourceVersion := ''1''\<rparr>)),
         GVKForObject = (\<lambda>ob. Inr \<lparr>Group = ''example.io'', Version = ''v1'', Kind = ''Bar''\<rparr>)\<rparr>
       \<lparr>recent = Map.empty\<rparr> 100
       (Direct \<lparr>GetNamespace = ''foo'', GetName = ''b'', GetUID = '''',
                GetResourceVersion = '''', Content = ''spec''\<rparr>)))
     (''foo'', ''b'')
     (Direct \<lparr>GetNamespace = ''foo'', GetName = ''b'', GetUID = '''',
              GetResourceVersion = '''', Content = ''''\<rparr>)
   = (None,
      \<lparr>GetNamespace = ''foo'', GetName = ''b'', GetUID = ''u1'',
        GetResourceVersion = ''1'', Content = ''spec''\<rparr>)"
  by (simp add: cacheClient_Create_def cacheClient_Get_def store_def CopyInto_def)

end
